theory Spec2Isabelle
  imports Complex_Main "HOL-Library.AList"
begin

text \<open>
  A model of the protocol client and the tool-invocation layer of the agent: the client
  that sends JSON-RPC requests by HTTP POST and receives the replies on a server-sent
  event stream (\<^verbatim>\<open>MCPClient\<close>), the wrapper that turns a tool's parameter schema and an
  arbitrary input into an argument set and formats the result (\<^verbatim>\<open>MCPToolWrapper\<close>), and
  the agent's bounded conversation history (\<^verbatim>\<open>LangChainMCPAgent\<close>).
\<close>

section \<open>JavaScript values, strings and numbers\<close>

text \<open>
  The tool-invocation layer (\<^verbatim>\<open>MCPToolWrapper\<close>) works on untyped JSON values. A value is
  modelled as the datatype \<open>jsval\<close>; an object is an association list in insertion order,
  which is the order \<^verbatim>\<open>Object.keys\<close> and \<^verbatim>\<open>Object.entries\<close> enumerate (for keys that are
  not array indices). A number is an exact rational, or NaN, or an infinity: a value is
  not rounded to the nearest IEEE double, only turned into an infinity where a double
  overflows. A string is a list of code units below 256 (the Latin-1 range), with
  JavaScript's character classes on that range; other code units are not modelled.
\<close>

datatype jsnum = NaN | Infinity bool | Fin rat

datatype jsval =
    JUndefined
  | JNull
  | JBool bool
  | JNum jsnum
  | JStr string
  | JArr "jsval list"
  | JObj "(string \<times> jsval) list"

type_synonym js_object = "(string \<times> jsval) list"

text \<open>Truthiness, as \<^verbatim>\<open>if (v)\<close>, \<^verbatim>\<open>!v\<close> and \<^verbatim>\<open>a || b\<close> test it.\<close>

fun truthy :: "jsval \<Rightarrow> bool" where
  "truthy JUndefined = False"
| "truthy JNull = False"
| "truthy (JBool b) = b"
| "truthy (JNum NaN) = False"
| "truthy (JNum (Infinity _)) = True"
| "truthy (JNum (Fin r)) = (r \<noteq> 0)"
| "truthy (JStr s) = (s \<noteq> [])"
| "truthy (JArr _) = True"
| "truthy (JObj _) = True"

text \<open>\<^verbatim>\<open>typeof v === 'object'\<close>: true of null, arrays and objects.\<close>

fun typeof_object :: "jsval \<Rightarrow> bool" where
  "typeof_object JNull = True"
| "typeof_object (JArr _) = True"
| "typeof_object (JObj _) = True"
| "typeof_object _ = False"

definition is_digit :: "char \<Rightarrow> bool" where
  "is_digit c \<longleftrightarrow> 48 \<le> (of_char c :: nat) \<and> (of_char c :: nat) \<le> 57"

text \<open>
  Whitespace, as \<^verbatim>\<open>\s\<close>, \<^verbatim>\<open>trim\<close> and \<^verbatim>\<open>parseFloat\<close> see it: tab to carriage return,
  space, and the no-break space.
\<close>

definition is_space :: "char \<Rightarrow> bool" where
  "is_space c \<longleftrightarrow>
     (of_char c :: nat) = 32 \<or> (9 \<le> (of_char c :: nat) \<and> (of_char c :: nat) \<le> 13)
       \<or> (of_char c :: nat) = 160"

text \<open>Lower case: the letters A to Z and the Latin-1 capitals (192 to 222, but not 215).\<close>

definition to_lower_char :: "char \<Rightarrow> char" where
  "to_lower_char c =
     (if (65 \<le> (of_char c :: nat) \<and> (of_char c :: nat) \<le> 90)
         \<or> (192 \<le> (of_char c :: nat) \<and> (of_char c :: nat) \<le> 222 \<and> (of_char c :: nat) \<noteq> 215)
      then char_of ((of_char c :: nat) + 32) else c)"

definition toLowerCase :: "string \<Rightarrow> string" where
  "toLowerCase s = map to_lower_char s"

fun starts_with :: "string \<Rightarrow> string \<Rightarrow> bool" where
  "starts_with s [] = True"
| "starts_with [] (p # ps) = False"
| "starts_with (c # cs) (p # ps) = (c = p \<and> starts_with cs ps)"

text \<open>\<^verbatim>\<open>s.includes(sub)\<close> on strings: \<open>sub\<close> occurs in \<open>s\<close>.\<close>

fun str_includes :: "string \<Rightarrow> string \<Rightarrow> bool" where
  "str_includes [] sub = (sub = [])"
| "str_includes (c # cs) sub = (starts_with (c # cs) sub \<or> str_includes cs sub)"

definition trim :: "string \<Rightarrow> string" where
  "trim s = rev (dropWhile is_space (rev (dropWhile is_space s)))"

text \<open>
  \<^verbatim>\<open>s.split(/\s+/)\<close>: the pieces between maximal runs of whitespace. A leading or a
  trailing run gives an empty first or last piece, and the empty string gives \<^verbatim>\<open>[""]\<close>.
\<close>

fun split_ws :: "string \<Rightarrow> string list" where
  "split_ws [] = [[]]"
| "split_ws (c # cs) =
     (if is_space c then
        (if cs \<noteq> [] \<and> is_space (hd cs) then split_ws cs else [] # split_ws cs)
      else
        (case split_ws cs of
           w # ws \<Rightarrow> (c # w) # ws
         | [] \<Rightarrow> [[c]]))"

text \<open>
  \<^verbatim>\<open>input.match(/(\d+(?:\.\d+)?)/g)\<close>: every match, left to right, each the longest at its
  position: a run of digits and, when a dot and a digit follow, the dot and the next run.
  JavaScript returns \<^verbatim>\<open>null\<close> when nothing matches; the model returns \<open>[]\<close>, and the
  caller's test \<^verbatim>\<open>numberMatches && ...\<close> is the test for a non-empty list, since a match
  array is never empty.
\<close>

definition fraction_tail :: "string \<Rightarrow> string \<times> string" where
  "fraction_tail r =
     (case r of
        d # f # r' \<Rightarrow>
          (if d = CHR ''.'' \<and> is_digit f
           then (d # f # takeWhile is_digit r', dropWhile is_digit r')
           else ([], r))
      | _ \<Rightarrow> ([], r))"

lemma fraction_tail_length: "length (snd (fraction_tail r)) \<le> length r"
proof (cases r)
  case Nil
  then show ?thesis by (simp add: fraction_tail_def)
next
  case (Cons d r1)
  show ?thesis
  proof (cases r1)
    case Nil
    with Cons show ?thesis by (simp add: fraction_tail_def)
  next
    case (Cons f r')
    have "length (dropWhile is_digit r') \<le> length r'"
      by (rule length_dropWhile_le)
    with \<open>r = d # r1\<close> Cons show ?thesis by (simp add: fraction_tail_def)
  qed
qed

function number_matches :: "string \<Rightarrow> string list" where
  "number_matches [] = []"
| "number_matches (c # cs) =
     (if is_digit c then
        (c # takeWhile is_digit cs @ fst (fraction_tail (dropWhile is_digit cs)))
          # number_matches (snd (fraction_tail (dropWhile is_digit cs)))
      else number_matches cs)"
  by pat_completeness auto
termination
proof (relation "measure length")
  show "wf (measure length)" by simp
next
  fix c :: char and cs :: string
  have "length (snd (fraction_tail (dropWhile is_digit cs))) \<le> length (dropWhile is_digit cs)"
    by (rule fraction_tail_length)
  also have "\<dots> \<le> length cs" by (rule length_dropWhile_le)
  finally show "(snd (fraction_tail (dropWhile is_digit cs)), c # cs) \<in> measure length"
    by simp
next
  fix c :: char and cs :: string
  show "(cs, c # cs) \<in> measure length" by simp
qed

text \<open>\<^verbatim>\<open>/^\d+(\.\d+)?$/.test(word)\<close>: the whole word is a decimal literal.\<close>

definition is_numeric_word :: "string \<Rightarrow> bool" where
  "is_numeric_word w =
     (let ip = takeWhile is_digit w; r = dropWhile is_digit w
      in ip \<noteq> [] \<and>
         (r = [] \<or> (hd r = CHR ''.'' \<and> tl r \<noteq> [] \<and> list_all is_digit (tl r))))"

definition digit_val :: "char \<Rightarrow> nat" where
  "digit_val c = (of_char c :: nat) - 48"

definition digits_to_nat :: "string \<Rightarrow> nat" where
  "digits_to_nat ds = foldl (\<lambda>a c. 10 * a + digit_val c) 0 ds"

definition strip_sign :: "string \<Rightarrow> bool \<times> string" where
  "strip_sign s =
     (case s of
        c # cs \<Rightarrow>
          (if c = CHR ''-'' then (True, cs)
           else if c = CHR ''+'' then (False, cs)
           else (False, s))
      | [] \<Rightarrow> (False, s))"

text \<open>The exponent part of a decimal literal, as a factor: \<^verbatim>\<open>e3\<close>, \<^verbatim>\<open>E-2\<close>; 1 when absent.\<close>

definition exponent_factor :: "string \<Rightarrow> rat" where
  "exponent_factor r =
     (case r of
        e # r1 \<Rightarrow>
          (if e = CHR ''e'' \<or> e = CHR ''E'' then
             (let sg = strip_sign r1; ds = takeWhile is_digit (snd sg)
              in if ds = [] then 1
                 else if fst sg then 1 / 10 ^ digits_to_nat ds
                 else 10 ^ digits_to_nat ds)
           else 1)
      | [] \<Rightarrow> 1)"

text \<open>
  The number a literal of exact value \<open>r\<close> denotes: an infinity from the point where
  rounding to a double overflows, and \<open>r\<close> itself below it.
\<close>

definition to_number :: "rat \<Rightarrow> jsnum" where
  "to_number r = (if 2 ^ 1024 - 2 ^ 970 \<le> \<bar>r\<bar> then Infinity (r < 0) else Fin r)"

text \<open>
  \<^verbatim>\<open>parseFloat(s)\<close>: leading whitespace is skipped, then the longest prefix that is a
  decimal literal (or \<^verbatim>\<open>Infinity\<close>) is read; NaN when there is none.
\<close>

definition parseFloat :: "string \<Rightarrow> jsnum" where
  "parseFloat str =
     (let sg = strip_sign (dropWhile is_space str);
          s1 = snd sg
      in if starts_with s1 ''Infinity'' then Infinity (fst sg)
         else
           (let ip = takeWhile is_digit s1;
                r1 = dropWhile is_digit s1;
                has_dot = (r1 \<noteq> [] \<and> hd r1 = CHR ''.'');
                fp = (if has_dot then takeWhile is_digit (tl r1) else []);
                r2 = (if has_dot then dropWhile is_digit (tl r1) else r1)
            in if ip = [] \<and> fp = [] then NaN
               else to_number ((if fst sg then - 1 else 1)
                         * (of_nat (digits_to_nat ip) + of_nat (digits_to_nat fp) / 10 ^ length fp)
                         * exponent_factor r2)))"

definition is_hex_digit :: "char \<Rightarrow> bool" where
  "is_hex_digit c \<longleftrightarrow>
     is_digit c \<or> (97 \<le> (of_char c :: nat) \<and> (of_char c :: nat) \<le> 102)
               \<or> (65 \<le> (of_char c :: nat) \<and> (of_char c :: nat) \<le> 70)"

definition hex_val :: "char \<Rightarrow> nat" where
  "hex_val c =
     (if is_digit c then digit_val c
      else if 97 \<le> (of_char c :: nat) then (of_char c :: nat) - 87
      else (of_char c :: nat) - 55)"

text \<open>
  \<^verbatim>\<open>parseInt(s)\<close> with no radix: whitespace, a sign, then hexadecimal digits after
  \<^verbatim>\<open>0x\<close> or decimal digits otherwise; NaN when there is no digit.
\<close>

definition parseInt :: "string \<Rightarrow> jsnum" where
  "parseInt str =
     (let sg = strip_sign (dropWhile is_space str);
          s1 = snd sg;
          hex = (starts_with s1 ''0x'' \<or> starts_with s1 ''0X'');
          ds = (if hex then takeWhile is_hex_digit (drop 2 s1) else takeWhile is_digit s1)
      in if ds = [] then NaN
         else to_number ((if fst sg then - 1 else 1)
                   * of_nat (if hex then foldl (\<lambda>a c. 16 * a + hex_val c) 0 ds
                             else digits_to_nat ds)))"

definition isNaN :: "jsnum \<Rightarrow> bool" where
  "isNaN n \<longleftrightarrow> n = NaN"

fun Math_floor :: "jsnum \<Rightarrow> jsnum" where
  "Math_floor (Fin r) = Fin (of_int \<lfloor>r\<rfloor>)"
| "Math_floor n = n"

section \<open>Errors\<close>

text \<open>
  Every \<^verbatim>\<open>throw new Error(...)\<close> and promise rejection of the modelled code is a value of
  this type; the constructor stands for the message text.
\<close>

datatype msg_id = IdStr string | IdNum int

datatype error =
    AgentNotInitialized
  | ClientNotInitialized
  | NoSessionId
  | McpError string
  | RequestTimeout msg_id
  | TransportError string
  | ToolExecutionFailed string
  | TypeError
  | LlmFailure string

text \<open>
  \<^verbatim>\<open>n.toString()\<close> of a number, after the algorithm of the language specification. With
  \<open>k\<close> significant digits and the decimal exponent \<open>n\<close> (the value is below the
  \<open>n\<close>-th power of ten and not below the one before): the digits padded with zeros when
  \<open>k \<le> n \<le> 21\<close>, a decimal point
  inside the digits when \<open>0 < n \<le> 21\<close>, leading zeros after \<^verbatim>\<open>0.\<close> when \<open>-6 < n \<le> 0\<close>, and
  exponent notation otherwise. The digits are those of the exact value, at most 21 of
  them (JavaScript prints the shortest digits that read back as the same double).
\<close>

function nat_digits :: "nat \<Rightarrow> string" where
  "nat_digits n =
     (if n < 10 then [char_of (48 + n)]
      else nat_digits (n div 10) @ [char_of (48 + n mod 10)])"
  by pat_completeness auto
termination
  by (relation "measure id") auto

declare nat_digits.simps [simp del]

text \<open>The digits after the point of a number in \<open>[0, 1)\<close>, until they end or the fuel does.\<close>

fun frac_digits :: "nat \<Rightarrow> rat \<Rightarrow> string" where
  "frac_digits 0 r = []"
| "frac_digits (Suc k) r =
     (if r = 0 then []
      else char_of (48 + nat \<lfloor>r * 10\<rfloor>) # frac_digits k (r * 10 - of_int \<lfloor>r * 10\<rfloor>))"

text \<open>For \<open>0 < a < 1\<close>: the number of zeros between the point and the first digit.\<close>

fun leading_zeros :: "nat \<Rightarrow> rat \<Rightarrow> nat" where
  "leading_zeros 0 a = 0"
| "leading_zeros (Suc fuel) a = (if 1 \<le> a * 10 then 0 else Suc (leading_zeros fuel (a * 10)))"

text \<open>The decimal exponent of \<open>a > 0\<close>: the number of digits before the point, or minus
  the number of zeros after it.\<close>

definition decimal_exponent :: "rat \<Rightarrow> int" where
  "decimal_exponent a =
     (if 1 \<le> a then int (length (nat_digits (nat \<lfloor>a\<rfloor>)))
      else - int (leading_zeros 400 a))"

definition scale10 :: "rat \<Rightarrow> int \<Rightarrow> rat" where
  "scale10 a n = (if 0 \<le> n then a / 10 ^ nat n else a * 10 ^ nat (- n))"

definition positive_toString :: "rat \<Rightarrow> string" where
  "positive_toString a =
     (let n = decimal_exponent a;
          ds = frac_digits 21 (scale10 a n);
          k = int (length ds)
      in if k \<le> n \<and> n \<le> 21 then ds @ replicate (nat (n - k)) CHR ''0''
         else if 0 < n \<and> n \<le> 21 then take (nat n) ds @ CHR ''.'' # drop (nat n) ds
         else if - 6 < n \<and> n \<le> 0 then ''0.'' @ replicate (nat (- n)) CHR ''0'' @ ds
         else (if k = 1 then ds else hd ds # CHR ''.'' # tl ds)
                @ CHR ''e'' # (if 0 \<le> n - 1 then CHR ''+'' else CHR ''-'')
                # nat_digits (nat \<bar>n - 1\<bar>))"

definition number_toString :: "jsnum \<Rightarrow> string" where
  "number_toString n =
     (case n of
        NaN \<Rightarrow> ''NaN''
      | Infinity neg \<Rightarrow> (if neg then ''-Infinity'' else ''Infinity'')
      | Fin r \<Rightarrow>
          (if r = 0 then ''0''
           else (if r < 0 then ''-'' else []) @ positive_toString \<bar>r\<bar>))"

text \<open>\<^verbatim>\<open>xs.join(sep)\<close> on strings.\<close>

fun join :: "string \<Rightarrow> string list \<Rightarrow> string" where
  "join sep [] = []"
| "join sep [x] = x"
| "join sep (x # y # ys) = x @ sep @ join sep (y # ys)"

text \<open>
  \<^verbatim>\<open>value.toString()\<close>, the text or the TypeError thrown. On \<^verbatim>\<open>null\<close> and \<^verbatim>\<open>undefined\<close>
  the method call throws. An object parsed from JSON prints as \<^verbatim>\<open>[object Object]\<close>,
  unless it has a property of its own named \<^verbatim>\<open>toString\<close>: that property is no function,
  and calling it throws. An array joins the texts of its elements with commas, \<^verbatim>\<open>null\<close>
  and \<^verbatim>\<open>undefined\<close> elements giving the empty text, and throws when an element does.
\<close>

fun js_toString :: "jsval \<Rightarrow> error + string"
  and elements_toString :: "jsval list \<Rightarrow> error + string list" where
  "js_toString JUndefined = Inl TypeError"
| "js_toString JNull = Inl TypeError"
| "js_toString (JBool b) = Inr (if b then ''true'' else ''false'')"
| "js_toString (JNum n) = Inr (number_toString n)"
| "js_toString (JStr s) = Inr s"
| "js_toString (JArr xs) =
     (case elements_toString xs of Inl e \<Rightarrow> Inl e | Inr ts \<Rightarrow> Inr (join '','' ts))"
| "js_toString (JObj kvs) =
     (if map_of kvs ''toString'' = None then Inr ''[object Object]'' else Inl TypeError)"
| "elements_toString [] = Inr []"
| "elements_toString (x # xs) =
     (case (if x = JNull \<or> x = JUndefined then Inr [] else js_toString x) of
        Inl e \<Rightarrow> Inl e
      | Inr t \<Rightarrow> (case elements_toString xs of Inl e \<Rightarrow> Inl e | Inr ts \<Rightarrow> Inr (t # ts)))"

section \<open>Objects under construction and the prototype chain\<close>

text \<open>
  The wrapper builds its results in object literals (\<^verbatim>\<open>const result = {}\<close>,
  \<^verbatim>\<open>const cleanedArgs = {}\<close>). Such an object has the properties assigned to it, its own
  ones, and a prototype, at first \<^verbatim>\<open>Object.prototype\<close>. The operator \<^verbatim>\<open>in\<close> and a
  property read follow the prototype chain, so the names of the members of
  \<^verbatim>\<open>Object.prototype\<close> are found in every such object; \<^verbatim>\<open>Object.keys\<close>,
  \<^verbatim>\<open>Object.entries\<close> and the JSON sent to the server see the own properties only.
\<close>

definition object_prototype_names :: "string list" where
  "object_prototype_names =
     [''constructor'', ''__defineGetter__'', ''__defineSetter__'', ''hasOwnProperty'',
      ''__lookupGetter__'', ''__lookupSetter__'', ''isPrototypeOf'', ''propertyIsEnumerable'',
      ''toString'', ''valueOf'', ''__proto__'', ''toLocaleString'']"

text \<open>The members of \<^verbatim>\<open>Array.prototype\<close> (ECMAScript 2023) and an array's own \<^verbatim>\<open>length\<close>.\<close>

definition array_prototype_names :: "string list" where
  "array_prototype_names =
     [''length'', ''constructor'', ''at'', ''concat'', ''copyWithin'', ''fill'', ''find'',
      ''findIndex'', ''findLast'', ''findLastIndex'', ''lastIndexOf'', ''pop'', ''push'',
      ''reverse'', ''shift'', ''unshift'', ''slice'', ''sort'', ''splice'', ''includes'',
      ''indexOf'', ''join'', ''keys'', ''entries'', ''values'', ''forEach'', ''filter'',
      ''flat'', ''flatMap'', ''map'', ''every'', ''some'', ''reduce'', ''reduceRight'',
      ''toLocaleString'', ''toString'', ''toReversed'', ''toSorted'', ''toSpliced'', ''with'']"

text \<open>
  The prototype of an object under construction: \<^verbatim>\<open>Object.prototype\<close>, \<^verbatim>\<open>null\<close>, or a
  value parsed from JSON (an object or an array, whose own prototype is the standard one)
  after an assignment to \<^verbatim>\<open>__proto__\<close>.
\<close>

datatype prototype = ObjectPrototype | NullPrototype | ValuePrototype jsval

record plain_object =
  own :: js_object
  proto :: prototype

definition empty_object :: plain_object where
  "empty_object = \<lparr>own = [], proto = ObjectPrototype\<rparr>"

text \<open>\<^verbatim>\<open>k in v\<close> for a value \<open>v\<close> parsed from JSON.\<close>

definition value_has :: "jsval \<Rightarrow> string \<Rightarrow> bool" where
  "value_has v k =
     (case v of
        JObj kvs \<Rightarrow> map_of kvs k \<noteq> None \<or> k \<in> set object_prototype_names
      | JArr xs \<Rightarrow>
          k \<in> set (map nat_digits [0..<length xs]) \<or> k \<in> set array_prototype_names
            \<or> k \<in> set object_prototype_names
      | _ \<Rightarrow> False)"

definition prototype_has :: "prototype \<Rightarrow> string \<Rightarrow> bool" where
  "prototype_has p k =
     (case p of
        ObjectPrototype \<Rightarrow> k \<in> set object_prototype_names
      | NullPrototype \<Rightarrow> False
      | ValuePrototype v \<Rightarrow> value_has v k)"

text \<open>\<^verbatim>\<open>k in obj\<close>.\<close>

definition js_in :: "plain_object \<Rightarrow> string \<Rightarrow> bool" where
  "js_in obj k \<longleftrightarrow> map_of (own obj) k \<noteq> None \<or> prototype_has (proto obj) k"

text \<open>
  Whether an assignment to \<^verbatim>\<open>__proto__\<close> reaches the accessor of \<^verbatim>\<open>Object.prototype\<close>:
  not below the \<^verbatim>\<open>null\<close> prototype, and not when the prototype is a parsed object with a
  property of its own of that name (\<^verbatim>\<open>JSON.parse\<close> creates it as a data property).
\<close>

definition reaches_proto_setter :: "prototype \<Rightarrow> bool" where
  "reaches_proto_setter p =
     (case p of
        ObjectPrototype \<Rightarrow> True
      | NullPrototype \<Rightarrow> False
      | ValuePrototype v \<Rightarrow> (case v of JObj kvs \<Rightarrow> map_of kvs ''__proto__'' = None | _ \<Rightarrow> True))"

text \<open>
  \<^verbatim>\<open>obj[k] = v\<close>. The property becomes (or stays) an own property with the new value,
  except for \<^verbatim>\<open>__proto__\<close> where the accessor is reached: then an object, an array or
  \<^verbatim>\<open>null\<close> becomes the prototype, any other value is ignored, and no own property is made.
\<close>

definition js_set :: "plain_object \<Rightarrow> string \<Rightarrow> jsval \<Rightarrow> plain_object" where
  "js_set obj k v =
     (if k = ''__proto__'' \<and> map_of (own obj) k = None \<and> reaches_proto_setter (proto obj) then
        (case v of
           JNull \<Rightarrow> obj\<lparr>proto := NullPrototype\<rparr>
         | JObj kvs \<Rightarrow> obj\<lparr>proto := ValuePrototype v\<rparr>
         | JArr xs \<Rightarrow> obj\<lparr>proto := ValuePrototype v\<rparr>
         | _ \<Rightarrow> obj)
      else obj\<lparr>own := AList.update k v (own obj)\<rparr>)"

section \<open>Tool schemas and the tool wrapper (\<^verbatim>\<open>MCPToolWrapper\<close>)\<close>

text \<open>
  A property schema is the object under \<^verbatim>\<open>inputSchema.properties[name]\<close>: its
  \<^verbatim>\<open>type\<close> (absent is \<open>None\<close>) and its \<^verbatim>\<open>enum\<close>, which is \<open>Some vs\<close> exactly when
  \<^verbatim>\<open>propSchema.enum && Array.isArray(propSchema.enum)\<close> holds. In \<open>MCPTool\<close>,
  \<open>properties\<close> is \<^verbatim>\<open>inputSchema?.properties || {}\<close>, its own properties in key order, and
  \<open>required\<close> is \<^verbatim>\<open>inputSchema?.required || []\<close>.
\<close>

record prop_schema =
  ptype :: "string option"
  penum :: "jsval list option"

record MCPTool =
  tool_name :: string
  tool_description :: string
  properties :: "(string \<times> prop_schema) list"
  required :: "string list"

text \<open>
  The read \<^verbatim>\<open>properties[name]\<close>. The schema object is parsed from JSON, so besides its own
  properties the read finds the members of \<^verbatim>\<open>Object.prototype\<close>: functions (and, under
  \<^verbatim>\<open>__proto__\<close>, the prototype itself), which are truthy and have neither a \<^verbatim>\<open>type\<close>
  nor an \<^verbatim>\<open>enum\<close>. \<open>None\<close> is \<^verbatim>\<open>undefined\<close>.
\<close>

definition inherited_member :: prop_schema where
  "inherited_member = \<lparr>ptype = None, penum = None\<rparr>"

definition lookup_schema :: "(string \<times> prop_schema) list \<Rightarrow> string \<Rightarrow> prop_schema option" where
  "lookup_schema props k =
     (case map_of props k of
        Some p \<Rightarrow> Some p
      | None \<Rightarrow> (if k \<in> set object_prototype_names then Some inherited_member else None))"

definition is_null_or_undefined :: "jsval \<Rightarrow> bool" where
  "is_null_or_undefined v \<longleftrightarrow> v = JNull \<or> v = JUndefined"

definition nan_to_zero :: "jsnum \<Rightarrow> jsnum" where
  "nan_to_zero n = (if isNaN n then Fin 0 else n)"

text \<open>The \<^verbatim>\<open>switch (propSchema.type)\<close> of \<^verbatim>\<open>convertValueToSchemaType\<close>, for a schema that exists.\<close>

definition convert_with_schema :: "jsval \<Rightarrow> prop_schema \<Rightarrow> error + jsval" where
  "convert_with_schema v p =
     (if is_null_or_undefined v then Inr v
      else if ptype p = Some ''number'' then
        (case js_toString v of
           Inl e \<Rightarrow> Inl e
         | Inr txt \<Rightarrow> Inr (JNum (nan_to_zero (parseFloat txt))))
      else if ptype p = Some ''integer'' then
        (case js_toString v of
           Inl e \<Rightarrow> Inl e
         | Inr txt \<Rightarrow> Inr (JNum (nan_to_zero (parseInt txt))))
      else if ptype p = Some ''boolean'' then
        (case v of
           JBool b \<Rightarrow> Inr (JBool b)
         | JStr s \<Rightarrow> Inr (JBool (toLowerCase s = ''true'' \<or> s = ''1''))
         | _ \<Rightarrow> Inr (JBool (truthy v)))
      else if ptype p = Some ''string'' then
        (case js_toString v of Inl e \<Rightarrow> Inl e | Inr txt \<Rightarrow> Inr (JStr txt))
      else if ptype p = Some ''array'' then Inr (case v of JArr xs \<Rightarrow> v | _ \<Rightarrow> JArr [v])
      else if ptype p = Some ''object'' then
        Inr (if typeof_object v then v else JObj [(''value'', v)])
      else Inr v)"

text \<open>
  \<^verbatim>\<open>convertValueToSchemaType(value, propSchema)\<close>, where \<open>propSchema\<close> is the result of the
  read \<^verbatim>\<open>properties[name]\<close>: when the read gave \<^verbatim>\<open>undefined\<close> and the value is not
  null, reading \<^verbatim>\<open>propSchema.type\<close> throws a TypeError.
\<close>

definition convertValueToSchemaType :: "jsval \<Rightarrow> prop_schema option \<Rightarrow> error + jsval" where
  "convertValueToSchemaType v ps =
     (case ps of
        Some p \<Rightarrow> convert_with_schema v p
      | None \<Rightarrow> (if is_null_or_undefined v then Inr v else Inl TypeError))"

definition default_for_schema :: "prop_schema \<Rightarrow> jsval" where
  "default_for_schema p =
     (if ptype p = Some ''number'' \<or> ptype p = Some ''integer'' then JNum (Fin 0)
      else if ptype p = Some ''boolean'' then JBool False
      else if ptype p = Some ''string'' then
        (case penum p of
           Some vs \<Rightarrow> (case vs of [] \<Rightarrow> JUndefined | v # _ \<Rightarrow> v)
         | None \<Rightarrow> JStr [])
      else if ptype p = Some ''array'' then JArr []
      else if ptype p = Some ''object'' then JObj []
      else JNull)"

definition getDefaultValueForSchema :: "prop_schema option \<Rightarrow> error + jsval" where
  "getDefaultValueForSchema ps =
     (case ps of Some p \<Rightarrow> Inr (default_for_schema p) | None \<Rightarrow> Inl TypeError)"

definition getPropertyPriority :: "string \<Rightarrow> prop_schema \<Rightarrow> nat" where
  "getPropertyPriority propName p =
     (let name = toLowerCase propName in
      if str_includes name ''query'' \<or> str_includes name ''search'' then 10
      else if str_includes name ''name'' \<or> str_includes name ''title'' then 9
      else if str_includes name ''id'' then 8
      else if str_includes name ''category'' \<or> str_includes name ''type'' then 7
      else if str_includes name ''text'' \<or> str_includes name ''content'' then 6
      else if str_includes name ''description'' \<or> str_includes name ''summary'' then 5
      else if penum p \<noteq> None then 4
      else 1)"

subsection \<open>\<^verbatim>\<open>mapInputToSchema\<close>: a raw input against the declared parameters\<close>

text \<open>
  The properties of one declared type, in declared order, each with its schema (the
  source filters \<^verbatim>\<open>propertyNames\<close> and reads \<^verbatim>\<open>properties[prop]\<close> again).
\<close>

definition numericProps :: "(string \<times> prop_schema) list \<Rightarrow> (string \<times> prop_schema) list" where
  "numericProps props =
     filter (\<lambda>kp. ptype (snd kp) = Some ''number'' \<or> ptype (snd kp) = Some ''integer'') props"

definition stringProps :: "(string \<times> prop_schema) list \<Rightarrow> (string \<times> prop_schema) list" where
  "stringProps props = filter (\<lambda>kp. ptype (snd kp) = Some ''string'') props"

text \<open>
  \<^verbatim>\<open>numericProps.forEach((prop, index) => { if (index < numberMatches.length) ... })\<close>:
  the k-th numeric property takes the k-th match, as long as there is one.
\<close>

fun assign_numbers :: "(string \<times> prop_schema) list \<Rightarrow> string list \<Rightarrow> plain_object \<Rightarrow> error + plain_object" where
  "assign_numbers [] ms res = Inr res"
| "assign_numbers (kp # rest) [] res = Inr res"
| "assign_numbers (kp # rest) (m # ms) res =
     (case convert_with_schema (JStr m) (snd kp) of
        Inl e \<Rightarrow> Inl e
      | Inr v \<Rightarrow> assign_numbers rest ms (js_set res (fst kp) v))"

text \<open>
  The enum loop: the first string property with an enum one of whose values is a word
  (as written or in lower case) takes that word, the word is removed, and the loop ends.
\<close>

fun enum_loop :: "(string \<times> prop_schema) list \<Rightarrow> string list \<Rightarrow> plain_object \<Rightarrow> plain_object \<times> string list" where
  "enum_loop [] ws res = (res, ws)"
| "enum_loop (kp # rest) ws res =
     (case penum (snd kp) of
        None \<Rightarrow> enum_loop rest ws res
      | Some vs \<Rightarrow>
          (case find (\<lambda>w. JStr (toLowerCase w) \<in> set vs \<or> JStr w \<in> set vs) ws of
             None \<Rightarrow> enum_loop rest ws res
           | Some w \<Rightarrow>
               (if w \<noteq> [] \<and> \<not> js_in res (fst kp)
                then (js_set res (fst kp) (JStr w), remove1 w ws)
                else enum_loop rest ws res)))"

text \<open>The priority loop: each string property not yet set takes the next word.\<close>

fun priority_loop :: "(string \<times> prop_schema) list \<Rightarrow> string list \<Rightarrow> plain_object \<Rightarrow> plain_object \<times> string list" where
  "priority_loop [] ws res = (res, ws)"
| "priority_loop (kp # rest) ws res =
     (if ws = [] then (res, ws)
      else if js_in res (fst kp) then priority_loop rest ws res
      else if length ws = 1 \<or> 0 < getPropertyPriority (fst kp) (snd kp)
      then priority_loop rest (tl ws) (js_set res (fst kp) (JStr (hd ws)))
      else priority_loop rest ws res)"

definition join_leftover :: "(string \<times> prop_schema) list \<Rightarrow> string list \<Rightarrow> plain_object \<Rightarrow> plain_object" where
  "join_leftover sprops ws res =
     (if ws = [] then res
      else
        (case filter (\<lambda>kp. \<not> js_in res (fst kp)) sprops of
           [] \<Rightarrow> res
         | kp # _ \<Rightarrow> js_set res (fst kp) (JStr (join '' '' ws))))"

definition assign_words :: "(string \<times> prop_schema) list \<Rightarrow> string list \<Rightarrow> plain_object \<Rightarrow> plain_object" where
  "assign_words sprops words res =
     (if sprops = [] then res
      else
        (let nonNumericWords = filter (\<lambda>w. \<not> is_numeric_word w) words in
         if nonNumericWords = [] then res
         else
           (let r1 = enum_loop sprops nonNumericWords res;
                r2 = priority_loop sprops (snd r1) (fst r1)
            in join_leftover sprops (snd r2) (fst r2))))"

text \<open>
  Back-filling in \<^verbatim>\<open>mapInputToSchema\<close>: every required name not \<^verbatim>\<open>in\<close> the result takes
  \<^verbatim>\<open>getDefaultValueForSchema(properties[reqProp])\<close>.
\<close>

fun fill_required :: "(string \<times> prop_schema) list \<Rightarrow> string list \<Rightarrow> plain_object \<Rightarrow> error + plain_object" where
  "fill_required props [] res = Inr res"
| "fill_required props (r # rs) res =
     (if js_in res r then fill_required props rs res
      else
        (case getDefaultValueForSchema (lookup_schema props r) of
           Inl e \<Rightarrow> Inl e
         | Inr v \<Rightarrow> fill_required props rs (js_set res r v)))"

definition is_common_keyword :: "string \<Rightarrow> bool" where
  "is_common_keyword prop =
     (let n = toLowerCase prop in
      str_includes n ''query'' \<or> str_includes n ''name'' \<or> str_includes n ''id''
        \<or> str_includes n ''search'' \<or> str_includes n ''text'')"

text \<open>
  The branch \<^verbatim>\<open>if (typeof input === 'string')\<close> for a schema of several properties.
  \<open>None\<close> means that the branch returned nothing and control reaches the last fallback.
  \<^verbatim>\<open>Object.keys(result).length > 0\<close> asks for an own property.
\<close>

definition map_string_input :: "(string \<times> prop_schema) list \<Rightarrow> string list \<Rightarrow> string \<Rightarrow> (error + jsval) option" where
  "map_string_input props req input =
     (let words = split_ws (trim input);
          numberMatches = number_matches input
      in case assign_numbers (numericProps props) numberMatches empty_object of
           Inl e \<Rightarrow> Some (Inl e)
         | Inr numbered \<Rightarrow>
             (let result = assign_words (stringProps props) words numbered
              in if own result \<noteq> [] then
                   Some (case fill_required props req result of
                           Inl e \<Rightarrow> Inl e
                         | Inr r \<Rightarrow> Inr (JObj (own r)))
                 else
                   (case stringProps props of
                      [] \<Rightarrow> None
                    | kp # _ \<Rightarrow>
                        (case find (\<lambda>k. is_common_keyword k) (map fst (stringProps props)) of
                           Some k \<Rightarrow>
                             Some (Inr (JObj [(if k \<noteq> [] then k else fst kp, JStr input)]))
                         | None \<Rightarrow> Some (Inr (JObj [(fst kp, JStr input)]))))))"

text \<open>
  The last fallback. Its loop over the required names stops at the first one that is not
  \<^verbatim>\<open>in\<close> the (still empty) result and assigns the converted input to it; when the result
  has no own property after the loop, the first declared property takes the input.
\<close>

fun first_required :: "(string \<times> prop_schema) list \<Rightarrow> string list \<Rightarrow> jsval \<Rightarrow> plain_object \<Rightarrow> error + plain_object" where
  "first_required props [] input res = Inr res"
| "first_required props (propName # rest) input res =
     (if js_in res propName then first_required props rest input res
      else
        (case convertValueToSchemaType input (lookup_schema props propName) of
           Inl e \<Rightarrow> Inl e
         | Inr v \<Rightarrow> Inr (js_set res propName v)))"

definition fallback_mapping :: "(string \<times> prop_schema) list \<Rightarrow> string list \<Rightarrow> jsval \<Rightarrow> error + jsval" where
  "fallback_mapping props req input =
     (case first_required props req input empty_object of
        Inl e \<Rightarrow> Inl e
      | Inr result \<Rightarrow>
          (if own result = [] then
             (case props of
                kp # _ \<Rightarrow>
                  (case convert_with_schema input (snd kp) of
                     Inl e \<Rightarrow> Inl e
                   | Inr v \<Rightarrow> Inr (JObj (own (js_set result (fst kp) v))))
              | [] \<Rightarrow> Inr (JObj (own result)))
           else Inr (JObj (own result))))"

definition mapInputToSchema :: "MCPTool \<Rightarrow> jsval \<Rightarrow> error + jsval" where
  "mapInputToSchema t input =
     (case properties t of
        [] \<Rightarrow> Inr (if typeof_object input then input else JObj [(''input'', input)])
      | kp # others \<Rightarrow>
          (if typeof_object input \<and> input \<noteq> JNull then Inr input
           else if others = [] then
             (case convert_with_schema input (snd kp) of
                Inl e \<Rightarrow> Inl e
              | Inr v \<Rightarrow> Inr (JObj [(fst kp, v)]))
           else
             (case input of
                JStr str \<Rightarrow>
                  (case map_string_input (properties t) (required t) str of
                     Some r \<Rightarrow> r
                   | None \<Rightarrow> fallback_mapping (properties t) (required t) input)
              | _ \<Rightarrow> fallback_mapping (properties t) (required t) input)))"

subsection \<open>\<^verbatim>\<open>validateAndCleanArgs\<close>: the cleaning pass\<close>

text \<open>
  One iteration of the first loop, for a key under which \<^verbatim>\<open>properties[key]\<close> is truthy:
  the object built so far with the field added, or left as it is, or the TypeError of
  \<^verbatim>\<open>value.toString()\<close>.
\<close>

definition clean_field :: "prop_schema \<Rightarrow> string \<Rightarrow> jsval \<Rightarrow> plain_object \<Rightarrow> error + plain_object" where
  "clean_field p key v cleanedArgs =
     (if ptype p = Some ''number'' \<or> ptype p = Some ''integer'' then
        (if is_null_or_undefined v then Inr cleanedArgs
         else
           (case js_toString v of
              Inl e \<Rightarrow> Inl e
            | Inr txt \<Rightarrow>
                (let numValue = parseFloat txt in
                 if isNaN numValue then Inr cleanedArgs
                 else Inr (js_set cleanedArgs key
                             (JNum (if ptype p = Some ''integer'' then Math_floor numValue
                                    else numValue))))))
      else if ptype p = Some ''string'' then
        (if is_null_or_undefined v then Inr cleanedArgs
         else
           (case js_toString v of
              Inl e \<Rightarrow> Inl e
            | Inr txt \<Rightarrow> Inr (js_set cleanedArgs key (JStr txt))))
      else if ptype p = Some ''boolean'' then
        (if is_null_or_undefined v then Inr cleanedArgs
         else Inr (js_set cleanedArgs key (JBool (truthy v))))
      else Inr (js_set cleanedArgs key v))"

fun clean_entries :: "(string \<times> prop_schema) list \<Rightarrow> (string \<times> jsval) list \<Rightarrow> plain_object \<Rightarrow> error + plain_object" where
  "clean_entries props [] cleanedArgs = Inr cleanedArgs"
| "clean_entries props (kv # rest) cleanedArgs =
     (case lookup_schema props (fst kv) of
        None \<Rightarrow> clean_entries props rest cleanedArgs
      | Some p \<Rightarrow>
          (case clean_field p (fst kv) (snd kv) cleanedArgs of
             Inl e \<Rightarrow> Inl e
           | Inr cleaned \<Rightarrow> clean_entries props rest cleaned))"

definition missing_warning :: "string \<Rightarrow> string \<Rightarrow> string" where
  "missing_warning requiredProp name =
     ''Missing required parameter '' @ [CHR 0x27] @ requiredProp @ [CHR 0x27]
       @ '' for tool '' @ [CHR 0x27] @ name @ [CHR 0x27]"

text \<open>
  The second loop. Its state is the object built so far and the warnings given to
  \<^verbatim>\<open>logger.warn\<close> so far. A required name that is not \<^verbatim>\<open>in\<close> the object is warned about
  and, when its type (read with \<^verbatim>\<open>propSchema?.type\<close>) is numeric, string or boolean, set
  to the default.
\<close>

fun fill_missing :: "string \<Rightarrow> (string \<times> prop_schema) list \<Rightarrow> string list \<Rightarrow> plain_object \<times> string list \<Rightarrow> plain_object \<times> string list" where
  "fill_missing name props [] st = st"
| "fill_missing name props (r # rs) st =
     fill_missing name props rs
       (if js_in (fst st) r then st
        else
          (let ty = (case lookup_schema props r of None \<Rightarrow> None | Some p \<Rightarrow> ptype p);
               warnings = snd st @ [missing_warning r name]
           in if ty = Some ''number'' \<or> ty = Some ''integer''
              then (js_set (fst st) r (JNum (Fin 0)), warnings)
              else if ty = Some ''string'' then (js_set (fst st) r (JStr []), warnings)
              else if ty = Some ''boolean'' then (js_set (fst st) r (JBool False), warnings)
              else (fst st, warnings)))"

text \<open>
  \<^verbatim>\<open>validateAndCleanArgs(args)\<close> on the entries of \<open>args\<close>: the own properties of the
  object returned, which are what is sent to the server, and the warnings; or the error
  thrown.
\<close>

definition validateAndCleanArgs :: "MCPTool \<Rightarrow> (string \<times> jsval) list \<Rightarrow> error + (js_object \<times> string list)" where
  "validateAndCleanArgs t args =
     (case clean_entries (properties t) args empty_object of
        Inl e \<Rightarrow> Inl e
      | Inr cleaned \<Rightarrow>
          (let filled = fill_missing (tool_name t) (properties t) (required t) (cleaned, [])
           in Inr (own (fst filled), snd filled)))"

subsection \<open>\<^verbatim>\<open>formatToolResult\<close> and \<^verbatim>\<open>executeInternal\<close>\<close>

text \<open>
  An invocation result (\<^verbatim>\<open>MCPToolResult\<close>): the content list (\<open>None\<close> when the field is
  absent) and the error flag (absent is \<open>False\<close>). A content item has a \<^verbatim>\<open>type\<close> and
  optional \<^verbatim>\<open>text\<close>, \<^verbatim>\<open>data\<close>, \<^verbatim>\<open>url\<close> and \<^verbatim>\<open>mimeType\<close>.
\<close>

record content_item =
  item_type :: string
  item_text :: "string option"
  item_data :: "string option"
  item_url :: "string option"
  item_mimeType :: "string option"

record MCPToolResult =
  content :: "content_item list option"
  isError :: bool

text \<open>\<^verbatim>\<open>s || dflt\<close> for an optional string: absent and empty are both falsy.\<close>

definition or_default :: "string option \<Rightarrow> string \<Rightarrow> string" where
  "or_default s dflt = (case s of Some x \<Rightarrow> (if x \<noteq> [] then x else dflt) | None \<Rightarrow> dflt)"

text \<open>The filter \<^verbatim>\<open>item.type === 'text' && item.text\<close>.\<close>

definition is_text_item :: "content_item \<Rightarrow> bool" where
  "is_text_item i \<longleftrightarrow> item_type i = ''text'' \<and> or_default (item_text i) [] \<noteq> []"

text \<open>
  The rendering of a non-text item. \<^verbatim>\<open>JSON.stringify\<close> is the platform's; it is a
  parameter of the model (\<open>stringify_item\<close>, and \<open>stringify_content\<close> for a content list).
\<close>

definition render_other :: "(content_item \<Rightarrow> string) \<Rightarrow> content_item \<Rightarrow> string" where
  "render_other stringify_item i =
     (if item_type i = ''image'' then ''[Image: '' @ or_default (item_url i) ''data'' @ '']''
      else if item_type i = ''resource'' then
        ''[Resource: '' @ or_default (item_url i) ''unknown'' @ '']''
      else ''['' @ item_type i @ '': '' @ stringify_item i @ '']'')"

definition formatToolResult ::
  "(content_item list option \<Rightarrow> string) \<Rightarrow> (content_item \<Rightarrow> string) \<Rightarrow> MCPToolResult \<Rightarrow> string" where
  "formatToolResult stringify_content stringify_item result =
     (case content result of
        None \<Rightarrow> ''Tool executed successfully with no output''
      | Some items \<Rightarrow>
          (if items = [] then ''Tool executed successfully with no output''
           else
             (let textContent =
                    join [CHR 0x0A] (map (\<lambda>i. or_default (item_text i) []) (filter is_text_item items))
              in if textContent \<noteq> [] then textContent
                 else
                   (let otherContent =
                          join [CHR 0x0A]
                            (map (render_other stringify_item)
                               (filter (\<lambda>i. item_type i \<noteq> ''text'') items))
                    in if otherContent \<noteq> [] then otherContent
                       else stringify_content (content result)))))"

text \<open>\<^verbatim>\<open>Object.entries(v)\<close>; it throws on \<^verbatim>\<open>null\<close> and \<^verbatim>\<open>undefined\<close>.\<close>

definition object_entries :: "jsval \<Rightarrow> error + (string \<times> jsval) list" where
  "object_entries v =
     (case v of
        JObj kvs \<Rightarrow> Inr kvs
      | JArr xs \<Rightarrow> Inr (zip (map nat_digits [0..<length xs]) xs)
      | JStr s \<Rightarrow> Inr (zip (map nat_digits [0..<length s]) (map (\<lambda>c. JStr [c]) s))
      | JNull \<Rightarrow> Inl TypeError
      | JUndefined \<Rightarrow> Inl TypeError
      | _ \<Rightarrow> Inr [])"

text \<open>
  Argument preparation, the first half of \<^verbatim>\<open>executeInternal\<close>: the input is taken as it
  is when it is an object, mapped by \<^verbatim>\<open>mapInputToSchema\<close> when it is another truthy value,
  and replaced by \<^verbatim>\<open>{}\<close> otherwise; then it is cleaned. The result is the argument set
  and the warnings logged.
\<close>

definition prepare_arguments :: "MCPTool \<Rightarrow> jsval \<Rightarrow> error + (js_object \<times> string list)" where
  "prepare_arguments t input =
     (case (if truthy input \<and> typeof_object input then Inr input
            else if truthy input then mapInputToSchema t input
            else Inr (JObj [])) of
        Inl e \<Rightarrow> Inl e
      | Inr mcpArguments \<Rightarrow>
          (case object_entries mcpArguments of
             Inl e \<Rightarrow> Inl e
           | Inr entries \<Rightarrow> validateAndCleanArgs t entries))"

text \<open>
  What the wrapper's surroundings supply: the platform's \<^verbatim>\<open>JSON.stringify\<close>, the client's
  session identifier (\<^verbatim>\<open>mcpClient.getSessionId()\<close>), the wrapper's own
  \<^verbatim>\<open>currentSessionId\<close>, and what the awaited \<^verbatim>\<open>mcpClient.callTool(name, args, sessionId)\<close>
  yields: a result, or the error it throws.
\<close>

record wrapper_env =
  stringify_content :: "content_item list option \<Rightarrow> string"
  stringify_item :: "content_item \<Rightarrow> string"
  client_session :: "string option"
  currentSessionId :: string
  awaited_callTool :: "string \<Rightarrow> js_object \<Rightarrow> string \<Rightarrow> error + MCPToolResult"

definition finish_call :: "wrapper_env \<Rightarrow> error + MCPToolResult \<Rightarrow> error + string" where
  "finish_call env r =
     (case r of
        Inl e \<Rightarrow> Inl e
      | Inr result \<Rightarrow>
          (if isError result
           then Inl (ToolExecutionFailed (stringify_content env (content result)))
           else Inr (formatToolResult (stringify_content env) (stringify_item env) result)))"

text \<open>\<^verbatim>\<open>executeInternal(input)\<close>: the text returned or the error thrown, and the warnings.\<close>

definition executeInternal :: "wrapper_env \<Rightarrow> MCPTool \<Rightarrow> jsval \<Rightarrow> (error + string) \<times> string list" where
  "executeInternal env t input =
     (case prepare_arguments t input of
        Inl e \<Rightarrow> (Inl e, [])
      | Inr prepared \<Rightarrow>
          (finish_call env
             (awaited_callTool env (tool_name t) (fst prepared)
                (or_default (client_session env) (currentSessionId env))),
           snd prepared))"

section \<open>The protocol client (\<^verbatim>\<open>MCPClient\<close>): requests, replies, timeouts\<close>

text \<open>
  A request identifier is a string or a number (\<^verbatim>\<open>string | number\<close>); the empty string
  and zero are falsy. A message has the optional fields of \<^verbatim>\<open>MCPMessage\<close>.
\<close>

fun truthy_id :: "msg_id \<Rightarrow> bool" where
  "truthy_id (IdStr s) = (s \<noteq> [])"
| "truthy_id (IdNum n) = (n \<noteq> 0)"

record MCPError =
  err_code :: int
  err_message :: string

record MCPMessage =
  message_id :: "msg_id option"
  message_method :: "string option"
  message_params :: "jsval option"
  message_result :: "jsval option"
  message_error :: "MCPError option"

text \<open>
  The promise \<^verbatim>\<open>sendRequest\<close> returns is the pending handle. A JavaScript promise settles
  at the first call of \<^verbatim>\<open>resolve\<close> or \<^verbatim>\<open>reject\<close> and ignores every later call. With the
  promise the model keeps what \<^verbatim>\<open>sendRequest\<close> created for it: the identifier the
  closures captured, the timer of \<^verbatim>\<open>setTimeout\<close>, and the POST being awaited.
\<close>

datatype promise = Pending | Resolved MCPMessage | Rejected error

datatype timer_state = Armed | Fired | Cleared

datatype post_state = InFlight | Accepted | Failed

record pending_handle =
  h_id :: msg_id
  outcome :: promise
  timer :: timer_state
  post :: post_state

definition settle :: "promise \<Rightarrow> pending_handle \<Rightarrow> pending_handle" where
  "settle v h = (if outcome h = Pending then h\<lparr>outcome := v\<rparr> else h)"

text \<open>
  The client. \<open>pendingRequests\<close> is the \<^verbatim>\<open>Map\<close> from identifier to callback; the callback
  registered for a request is the closure over its promise, so the map's value is the
  index of the handle in \<open>handles\<close>. \<open>outbox\<close> lists the requests handed to
  \<^verbatim>\<open>httpClient.post\<close>.
\<close>

record client =
  pendingRequests :: "msg_id \<rightharpoonup> nat"
  handles :: "pending_handle list"
  outbox :: "MCPMessage list"
  initialized :: bool
  isConnected :: bool
  sessionId :: "string option"

definition new_client :: client where
  "new_client =
     \<lparr>pendingRequests = Map.empty, handles = [], outbox = [],
      initialized = False, isConnected = False, sessionId = None\<rparr>"

definition update_handle :: "nat \<Rightarrow> (pending_handle \<Rightarrow> pending_handle) \<Rightarrow> client \<Rightarrow> client" where
  "update_handle k f s =
     (if k < length (handles s) then s\<lparr>handles := (handles s)[k := f (handles s ! k)]\<rparr> else s)"

text \<open>The callback \<^verbatim>\<open>sendRequest\<close> registers: reject on an error reply, else resolve.\<close>

definition response_callback :: "nat \<Rightarrow> MCPMessage \<Rightarrow> client \<Rightarrow> client" where
  "response_callback k response s =
     update_handle k
       (settle (case message_error response of
                  Some e \<Rightarrow> Rejected (McpError (err_message e))
                | None \<Rightarrow> Resolved response)) s"

text \<open>The identifier a request is sent under: \<^verbatim>\<open>if (!request.id) request.id = uuidv4()\<close>.\<close>

definition request_id_of :: "MCPMessage \<Rightarrow> msg_id \<Rightarrow> msg_id" where
  "request_id_of request uuid =
     (case message_id request of
        Some i \<Rightarrow> (if truthy_id i then i else uuid)
      | None \<Rightarrow> uuid)"

text \<open>
  \<^verbatim>\<open>sendRequest(request)\<close> up to its \<^verbatim>\<open>await\<close>: the callback is registered, the timer
  is armed, the request is handed to the transport. \<open>uuid\<close> is what \<^verbatim>\<open>uuidv4()\<close> returns
  if it is called. The new handle is the last of \<open>handles\<close>.
\<close>

definition sendRequest :: "MCPMessage \<Rightarrow> msg_id \<Rightarrow> client \<Rightarrow> client" where
  "sendRequest request uuid s =
     (let rid = request_id_of request uuid in
      s\<lparr>pendingRequests := (pendingRequests s)(rid \<mapsto> length (handles s)),
        handles := handles s @ [\<lparr>h_id = rid, outcome = Pending, timer = Armed, post = InFlight\<rparr>],
        outbox := outbox s @ [request\<lparr>message_id := Some rid\<rparr>]\<rparr>)"

text \<open>\<^verbatim>\<open>handleSSEMessage(message)\<close>.\<close>

definition handleSSEMessage :: "MCPMessage \<Rightarrow> client \<Rightarrow> client" where
  "handleSSEMessage message s =
     (case message_id message of
        None \<Rightarrow> s
      | Some i \<Rightarrow>
          (if truthy_id i then
             (case pendingRequests s i of
                None \<Rightarrow> s
              | Some k \<Rightarrow>
                  (let s' = response_callback k message s
                   in s'\<lparr>pendingRequests := (pendingRequests s')(i := None)\<rparr>))
           else s))"

text \<open>The timer's callback of handle \<open>k\<close>, thirty seconds after \<^verbatim>\<open>sendRequest\<close>.\<close>

definition timeout_fired :: "nat \<Rightarrow> client \<Rightarrow> client" where
  "timeout_fired k s =
     (let rid = h_id (handles s ! k);
          s' = s\<lparr>pendingRequests := (pendingRequests s)(rid := None)\<rparr>
      in update_handle k (\<lambda>h. (settle (Rejected (RequestTimeout rid)) h)\<lparr>timer := Fired\<rparr>) s')"

text \<open>The \<^verbatim>\<open>catch\<close> branch of \<^verbatim>\<open>sendRequest\<close>: the POST of handle \<open>k\<close> failed.\<close>

definition post_failed :: "nat \<Rightarrow> string \<Rightarrow> client \<Rightarrow> client" where
  "post_failed k err s =
     (let rid = h_id (handles s ! k);
          s' = s\<lparr>pendingRequests := (pendingRequests s)(rid := None)\<rparr>
      in update_handle k
           (\<lambda>h. (settle (Rejected (TransportError err)) h)
                   \<lparr>timer := (if timer h = Armed then Cleared else timer h), post := Failed\<rparr>) s')"

text \<open>The POST of handle \<open>k\<close> was accepted: only a log line follows.\<close>

definition post_accepted :: "nat \<Rightarrow> client \<Rightarrow> client" where
  "post_accepted k s = update_handle k (\<lambda>h. h\<lparr>post := Accepted\<rparr>) s"

text \<open>\<^verbatim>\<open>disconnect()\<close>.\<close>

definition disconnect :: "client \<Rightarrow> client" where
  "disconnect s =
     s\<lparr>isConnected := False, initialized := False, sessionId := None,
       pendingRequests := Map.empty\<rparr>"

text \<open>
  \<^verbatim>\<open>callTool(name, arguments_, sessionId)\<close> up to the \<^verbatim>\<open>await\<close> of \<^verbatim>\<open>sendRequest\<close>: the
  error thrown, or the index of the handle now awaited; and the client afterwards.
\<close>

definition tool_call_request :: "string \<Rightarrow> js_object \<Rightarrow> string \<Rightarrow> msg_id \<Rightarrow> MCPMessage" where
  "tool_call_request name arguments effectiveSessionId uuid =
     \<lparr>message_id = Some uuid, message_method = Some ''tools/call'',
      message_params = Some (JObj [(''name'', JStr name), (''arguments'', JObj arguments),
                                   (''sessionId'', JStr effectiveSessionId)]),
      message_result = None, message_error = None\<rparr>"

definition callTool :: "string \<Rightarrow> js_object \<Rightarrow> string option \<Rightarrow> msg_id \<Rightarrow> client \<Rightarrow> (error + nat) \<times> client" where
  "callTool name arguments sid uuid s =
     (if \<not> initialized s then (Inl ClientNotInitialized, s)
      else
        (let effectiveSessionId = or_default sid (or_default (sessionId s) [])
         in if effectiveSessionId = [] then (Inl NoSessionId, s)
            else (Inr (length (handles s)),
                  sendRequest (tool_call_request name arguments effectiveSessionId uuid) uuid s)))"

text \<open>
  The other assignments of the client's flags: the session announcement on the inbound
  stream, the end of a successful handshake, and the end of \<^verbatim>\<open>connect()\<close>.
\<close>

definition session_announced :: "string \<Rightarrow> client \<Rightarrow> client" where
  "session_announced sid s = s\<lparr>sessionId := Some sid\<rparr>"

definition handshake_done :: "client \<Rightarrow> client" where
  "handshake_done s = s\<lparr>initialized := True\<rparr>"

definition connect_finished :: "bool \<Rightarrow> client \<Rightarrow> client" where
  "connect_finished ok s =
     (if ok then s\<lparr>isConnected := True\<rparr> else s\<lparr>isConnected := False, initialized := False\<rparr>)"

text \<open>
  One step of the client. A request is sent under an identifier no earlier request of
  this client had (every caller passes a fresh \<^verbatim>\<open>uuidv4()\<close>); a timer fires only while it
  is armed; the POST of a request ends once.
\<close>

inductive client_step :: "client \<Rightarrow> client \<Rightarrow> bool" where
  step_send:
    "request_id_of request uuid \<notin> h_id ` set (handles s) \<Longrightarrow> truthy_id uuid \<Longrightarrow>
     client_step s (sendRequest request uuid s)"
| step_message: "client_step s (handleSSEMessage message s)"
| step_timeout:
    "k < length (handles s) \<Longrightarrow> timer (handles s ! k) = Armed \<Longrightarrow>
     client_step s (timeout_fired k s)"
| step_post_failed:
    "k < length (handles s) \<Longrightarrow> post (handles s ! k) = InFlight \<Longrightarrow>
     client_step s (post_failed k err s)"
| step_post_accepted:
    "k < length (handles s) \<Longrightarrow> post (handles s ! k) = InFlight \<Longrightarrow>
     client_step s (post_accepted k s)"
| step_disconnect: "client_step s (disconnect s)"
| step_session: "client_step s (session_announced sid s)"
| step_handshake: "client_step s (handshake_done s)"
| step_connect: "client_step s (connect_finished ok s)"

inductive reachable :: "client \<Rightarrow> bool" where
  reach_new: "reachable new_client"
| reach_step: "reachable s \<Longrightarrow> client_step s s' \<Longrightarrow> reachable s'"

section \<open>The agent's conversation history (\<^verbatim>\<open>LangChainMCPAgent\<close>)\<close>

datatype base_message = HumanMessage string | AIMessage string

record agent_state =
  agent_ready :: bool
  conversationHistory :: "string \<rightharpoonup> base_message list"

text \<open>
  \<^verbatim>\<open>processMessage(message, sessionId)\<close>. \<open>exec\<close> is what the awaited language-model and
  tool round (\<^verbatim>\<open>processWithManualToolExecution\<close>) yields: the response text or the error
  it throws. An error leaves the history as it was. \<open>history_of\<close> is
  \<^verbatim>\<open>this.conversationHistory.get(sessionId) || []\<close>.
\<close>

definition history_of :: "agent_state \<Rightarrow> string \<Rightarrow> base_message list" where
  "history_of a sid = (case conversationHistory a sid of Some h \<Rightarrow> h | None \<Rightarrow> [])"

definition keep_last_20 :: "base_message list \<Rightarrow> base_message list" where
  "keep_last_20 updatedHistory =
     (if length updatedHistory > 20
      then drop (length updatedHistory - 20) updatedHistory
      else updatedHistory)"

definition processMessage :: "string \<Rightarrow> string \<Rightarrow> error + string \<Rightarrow> agent_state \<Rightarrow> (error + string) \<times> agent_state" where
  "processMessage message sid exec a =
     (if \<not> agent_ready a then (Inl AgentNotInitialized, a)
      else
        (case exec of
           Inl e \<Rightarrow> (Inl e, a)
         | Inr fullResponse \<Rightarrow>
             (let chatHistory = history_of a sid;
                  updatedHistory = chatHistory @ [HumanMessage message, AIMessage fullResponse]
              in (Inr fullResponse,
                  a\<lparr>conversationHistory :=
                      (conversationHistory a)(sid \<mapsto> keep_last_20 updatedHistory)\<rparr>))))"

definition clearSession :: "string \<Rightarrow> agent_state \<Rightarrow> agent_state" where
  "clearSession sid a = a\<lparr>conversationHistory := (conversationHistory a)(sid := None)\<rparr>"

definition clearAllSessions :: "agent_state \<Rightarrow> agent_state" where
  "clearAllSessions a = a\<lparr>conversationHistory := Map.empty\<rparr>"

section \<open>The registry invariant\<close>

text \<open>
  What holds of every handle: while pending its timer is armed; once completed, it holds
  a reply without an error under its own identifier, or one of the three rejections.
\<close>

definition completion_of :: "pending_handle \<Rightarrow> bool" where
  "completion_of h =
     (case outcome h of
        Pending \<Rightarrow> timer h = Armed
      | Resolved m \<Rightarrow> message_error m = None \<and> message_id m = Some (h_id h)
      | Rejected e \<Rightarrow>
          e = RequestTimeout (h_id h) \<or> (\<exists>msg. e = McpError msg) \<or> (\<exists>err. e = TransportError err))"

text \<open>
  The invariant of the registry: identifiers of handles are pairwise different, every
  entry of the registry points to the pending handle of that identifier, and every
  handle satisfies \<open>completion_of\<close>.
\<close>

definition client_inv :: "client \<Rightarrow> bool" where
  "client_inv s \<longleftrightarrow>
     distinct (map h_id (handles s))
     \<and> (\<forall>i k. pendingRequests s i = Some k \<longrightarrow>
            k < length (handles s) \<and> h_id (handles s ! k) = i \<and> outcome (handles s ! k) = Pending)
     \<and> (\<forall>k < length (handles s). completion_of (handles s ! k))"

text \<open>
  A handle whose registry entry is gone while it was pending, as after \<^verbatim>\<open>disconnect()\<close>:
  the handle \<open>k\<close> belongs to the request \<open>rid\<close>, the registry has no entry for \<open>rid\<close>, and
  the handle is pending, or rejected with the timeout error of \<open>rid\<close>, or rejected with a
  transport error after its POST failed.
\<close>

definition abandoned :: "nat \<Rightarrow> msg_id \<Rightarrow> client \<Rightarrow> bool" where
  "abandoned k rid s \<longleftrightarrow>
     k < length (handles s) \<and> h_id (handles s ! k) = rid \<and> pendingRequests s rid = None
     \<and> (outcome (handles s ! k) = Pending
        \<or> outcome (handles s ! k) = Rejected (RequestTimeout rid)
        \<or> (post (handles s ! k) = Failed
            \<and> (\<exists>err. outcome (handles s ! k) = Rejected (TransportError err))))"

section \<open>Example inputs\<close>

text \<open>Concrete states, tools and results, on which the theorems below are exercised.\<close>

text \<open>An agent whose session \<^verbatim>\<open>s1\<close> already holds twenty messages.\<close>

definition busy_agent :: agent_state where
  "busy_agent =
     \<lparr>agent_ready = True,
      conversationHistory =
        [''s1'' \<mapsto> replicate 10 (HumanMessage ''q'') @ replicate 10 (AIMessage ''r'')]\<rparr>"

text \<open>
  A catalog request sent under the identifier \<^verbatim>\<open>req-1\<close>, its reply, and the client
  after sending it from the initial state: one request pending.
\<close>

definition list_request :: MCPMessage where
  "list_request =
     \<lparr>message_id = Some (IdStr ''req-1''), message_method = Some ''tools/list'',
      message_params = Some (JObj [(''sessionId'', JStr ''sess-1'')]),
      message_result = None, message_error = None\<rparr>"

definition list_reply :: MCPMessage where
  "list_reply =
     \<lparr>message_id = Some (IdStr ''req-1''), message_method = None, message_params = None,
      message_result = Some (JObj [(''tools'', JArr [])]), message_error = None\<rparr>"

definition one_pending :: client where
  "one_pending = sendRequest list_request (IdStr ''req-1'') new_client"

text \<open>A client after a successful handshake that holds no session identifier.\<close>

definition handshaken_no_session :: client where
  "handshaken_no_session = handshake_done new_client"

text \<open>Property schemas and tools.\<close>

definition number_schema :: prop_schema where
  "number_schema = \<lparr>ptype = Some ''number'', penum = None\<rparr>"

definition integer_schema :: prop_schema where
  "integer_schema = \<lparr>ptype = Some ''integer'', penum = None\<rparr>"

definition string_schema :: prop_schema where
  "string_schema = \<lparr>ptype = Some ''string'', penum = None\<rparr>"

definition category_schema :: prop_schema where
  "category_schema = \<lparr>ptype = Some ''string'', penum = Some [JStr ''laptops'', JStr ''phones'']\<rparr>"

definition add_two_numbers :: MCPTool where
  "add_two_numbers =
     \<lparr>tool_name = ''add_two_numbers'', tool_description = ''Adds two numbers'',
      properties = [(''firstNumber'', number_schema), (''secondNumber'', number_schema)],
      required = [''firstNumber'', ''secondNumber'']\<rparr>"

definition query_tool :: MCPTool where
  "query_tool =
     \<lparr>tool_name = ''search_products'', tool_description = ''Searches products'',
      properties = [(''query'', string_schema), (''limit'', integer_schema)],
      required = [''query'']\<rparr>"


definition category_tool :: MCPTool where
  "category_tool =
     \<lparr>tool_name = ''fetch_products_by_category'', tool_description = ''Lists a category'',
      properties = [(''category'', category_schema)], required = [''category'']\<rparr>"


text \<open>
  Invocation results, and surroundings of a wrapper in which the awaited \<^verbatim>\<open>callTool\<close>
  yields a given result. The two stringify functions stand in for \<^verbatim>\<open>JSON.stringify\<close>;
  every example fixes their output.
\<close>

definition text_item :: "string \<Rightarrow> content_item" where
  "text_item t =
     \<lparr>item_type = ''text'', item_text = Some t, item_data = None, item_url = None,
      item_mimeType = None\<rparr>"

definition two_texts :: MCPToolResult where
  "two_texts = \<lparr>content = Some [text_item ''8'', text_item ''done''], isError = False\<rparr>"

definition failed_result :: MCPToolResult where
  "failed_result = \<lparr>content = Some [text_item ''boom''], isError = True\<rparr>"

definition text_and_empty :: MCPToolResult where
  "text_and_empty = \<lparr>content = Some [text_item ''8'', text_item []], isError = False\<rparr>"

definition example_env :: "MCPToolResult \<Rightarrow> wrapper_env" where
  "example_env reply =
     \<lparr>stringify_content = (\<lambda>c. ''[...]''), stringify_item = (\<lambda>i. ''{...}''),
      client_session = Some ''sess-1'', currentSessionId = ''pending-session-id'',
      awaited_callTool = (\<lambda>name args sid. Inr reply)\<rparr>"

section \<open>Properties of the conversation history\<close>

lemma keep_last_20_length: "length (keep_last_20 u) = min 20 (length u)"
  by (simp add: keep_last_20_def)

lemma keep_last_20_suffix: "u = take (length u - 20) u @ keep_last_20 u"
  by (simp add: keep_last_20_def)

text \<open>
  C10. After a completed \<^verbatim>\<open>processMessage\<close> call the history stored for the session holds
  at most 20 messages: it is the old history with the new human and AI messages appended,
  cut down from the front, so that its length is the smaller of 20 and the old length
  plus two, and what was cut and what is stored make up the appended list. No other
  session's history changes.
\<close>

theorem processMessage_history_bound:
  assumes completed: "processMessage message sid exec a = (Inr r, a')"
  shows "\<exists>h. conversationHistory a' sid = Some h
           \<and> length h = min 20 (length (history_of a sid) + 2)
           \<and> history_of a sid @ [HumanMessage message, AIMessage r]
               = take (length (history_of a sid) + 2 - 20)
                   (history_of a sid @ [HumanMessage message, AIMessage r]) @ h
           \<and> (\<forall>other. other \<noteq> sid \<longrightarrow> conversationHistory a' other = conversationHistory a other)"
proof -
  let ?u = "history_of a sid @ [HumanMessage message, AIMessage r]"
  from completed have ready: "agent_ready a"
    by (auto simp: processMessage_def split: if_splits)
  from completed ready have ex: "exec = Inr r"
    by (auto simp: processMessage_def split: sum.splits)
  from completed ready ex
  have a': "a' = a\<lparr>conversationHistory := (conversationHistory a)(sid \<mapsto> keep_last_20 ?u)\<rparr>"
    by (simp add: processMessage_def)
  have "conversationHistory a' sid = Some (keep_last_20 ?u)" using a' by simp
  moreover have "length (keep_last_20 ?u) = min 20 (length (history_of a sid) + 2)"
    by (simp add: keep_last_20_length)
  moreover have "?u = take (length (history_of a sid) + 2 - 20) ?u @ keep_last_20 ?u"
    using keep_last_20_suffix [of ?u] by simp
  moreover have "\<forall>other. other \<noteq> sid \<longrightarrow> conversationHistory a' other = conversationHistory a other"
    using a' by simp
  ultimately show ?thesis by blast
qed

text \<open>A session that already holds 20 messages still holds 20 after one more exchange.\<close>

theorem processMessage_history_bound_witness:
  "fst (processMessage ''hi'' ''s1'' (Inr ''ok'') busy_agent) = Inr ''ok''
   \<and> (\<exists>h. conversationHistory (snd (processMessage ''hi'' ''s1'' (Inr ''ok'') busy_agent)) ''s1''
             = Some h
        \<and> length h = 20)"
proof -
  have run: "processMessage ''hi'' ''s1'' (Inr ''ok'') busy_agent
               = (Inr ''ok'', snd (processMessage ''hi'' ''s1'' (Inr ''ok'') busy_agent))"
    by (simp add: processMessage_def busy_agent_def)
  have len: "length (history_of busy_agent ''s1'') = 20"
    by (simp add: history_of_def busy_agent_def)
  have m: "min 20 (length (history_of busy_agent ''s1'') + 2) = 20"
    by (simp add: len)
  from processMessage_history_bound [OF run] obtain h where
    "conversationHistory (snd (processMessage ''hi'' ''s1'' (Inr ''ok'') busy_agent)) ''s1'' = Some h"
    "length h = min 20 (length (history_of busy_agent ''s1'') + 2)"
    by blast
  with m have "\<exists>h. conversationHistory (snd (processMessage ''hi'' ''s1'' (Inr ''ok'') busy_agent)) ''s1''
                      = Some h \<and> length h = 20"
    by simp
  moreover from run have "fst (processMessage ''hi'' ''s1'' (Inr ''ok'') busy_agent) = Inr ''ok''"
    by (metis fst_conv)
  ultimately show ?thesis by blast
qed

section \<open>Properties of the protocol client\<close>

lemma length_handles_update_handle [simp]:
  "length (handles (update_handle k f s)) = length (handles s)"
  by (simp add: update_handle_def)

lemma pendingRequests_update_handle [simp]:
  "pendingRequests (update_handle k f s) = pendingRequests s"
  by (simp add: update_handle_def)

lemma nth_handles_update_handle:
  "j < length (handles s) \<Longrightarrow>
   handles (update_handle k f s) ! j = (if j = k then f (handles s ! j) else handles s ! j)"
  by (simp add: update_handle_def)

lemma h_id_settle [simp]: "h_id (settle v h) = h_id h"
  by (simp add: settle_def)

lemma timer_settle [simp]: "timer (settle v h) = timer h"
  by (simp add: settle_def)

lemma outcome_settle: "outcome (settle v h) = (if outcome h = Pending then v else outcome h)"
  by (simp add: settle_def)

lemma handleSSEMessage_cases:
  "handleSSEMessage message s = s
   \<or> (\<exists>i k. message_id message = Some i \<and> truthy_id i \<and> pendingRequests s i = Some k
         \<and> handleSSEMessage message s
             = (response_callback k message s)\<lparr>pendingRequests := (pendingRequests s)(i := None)\<rparr>)"
proof (cases "message_id message")
  case None
  then show ?thesis by (simp add: handleSSEMessage_def)
next
  case (Some i)
  show ?thesis
  proof (cases "truthy_id i")
    case False
    with Some show ?thesis by (simp add: handleSSEMessage_def)
  next
    case True
    show ?thesis
    proof (cases "pendingRequests s i")
      case None
      with Some True show ?thesis by (simp add: handleSSEMessage_def)
    next
      case (Some k)
      with \<open>message_id message = Some i\<close> True show ?thesis
        by (simp add: handleSSEMessage_def Let_def response_callback_def)
    qed
  qed
qed

text \<open>Once settled, the outcome of a handle never changes.\<close>

lemma settled_stable_step:
  assumes "client_step s s'" and "k < length (handles s)" and "outcome (handles s ! k) \<noteq> Pending"
  shows "k < length (handles s') \<and> outcome (handles s' ! k) = outcome (handles s ! k)"
  using assms
proof (cases rule: client_step.cases)
  case (step_send request uuid)
  with assms show ?thesis by (simp add: sendRequest_def Let_def nth_append)
next
  case (step_message message)
  from handleSSEMessage_cases [of message s] show ?thesis
  proof
    assume "handleSSEMessage message s = s"
    with step_message assms(2) show ?thesis by simp
  next
    assume "\<exists>i j. message_id message = Some i \<and> truthy_id i \<and> pendingRequests s i = Some j
              \<and> handleSSEMessage message s
                  = (response_callback j message s)\<lparr>pendingRequests := (pendingRequests s)(i := None)\<rparr>"
    then obtain i j where
      "handleSSEMessage message s
         = (response_callback j message s)\<lparr>pendingRequests := (pendingRequests s)(i := None)\<rparr>"
      by blast
    with step_message assms(2,3) show ?thesis
      by (auto simp: response_callback_def nth_handles_update_handle outcome_settle)
  qed
next
  case (step_timeout j)
  with assms show ?thesis
    by (auto simp: timeout_fired_def Let_def nth_handles_update_handle outcome_settle)
next
  case (step_post_failed j err)
  with assms show ?thesis
    by (auto simp: post_failed_def Let_def nth_handles_update_handle outcome_settle)
next
  case (step_post_accepted j)
  with assms show ?thesis
    by (simp add: post_accepted_def nth_handles_update_handle)
next
  case step_disconnect
  with assms show ?thesis by (simp add: disconnect_def)
next
  case (step_session sid)
  with assms show ?thesis by (simp add: session_announced_def)
next
  case step_handshake
  with assms show ?thesis by (simp add: handshake_done_def)
next
  case (step_connect ok)
  with assms show ?thesis by (simp add: connect_finished_def)
qed

lemma client_inv_new: "client_inv new_client"
  by (simp add: client_inv_def new_client_def)

lemma inv_send:
  assumes inv: "client_inv s" and fresh: "request_id_of request uuid \<notin> h_id ` set (handles s)"
  shows "client_inv (sendRequest request uuid s)"
proof -
  let ?rid = "request_id_of request uuid"
  from inv have d: "distinct (map h_id (handles s))"
    and reg: "\<And>i k. pendingRequests s i = Some k \<Longrightarrow>
            k < length (handles s) \<and> h_id (handles s ! k) = i \<and> outcome (handles s ! k) = Pending"
    and comp: "\<And>k. k < length (handles s) \<Longrightarrow> completion_of (handles s ! k)"
    by (auto simp: client_inv_def)
  have 1: "distinct (map h_id (handles (sendRequest request uuid s)))"
    using d fresh by (simp add: sendRequest_def Let_def)
  have 2: "k < length (handles (sendRequest request uuid s))
           \<and> h_id (handles (sendRequest request uuid s) ! k) = i
           \<and> outcome (handles (sendRequest request uuid s) ! k) = Pending"
    if "pendingRequests (sendRequest request uuid s) i = Some k" for i k
  proof (cases "i = ?rid")
    case True
    with that have "k = length (handles s)" by (simp add: sendRequest_def Let_def)
    with True show ?thesis by (simp add: sendRequest_def Let_def)
  next
    case False
    with that have "pendingRequests s i = Some k" by (simp add: sendRequest_def Let_def)
    from reg [OF this] show ?thesis by (simp add: sendRequest_def Let_def nth_append)
  qed
  have 3: "completion_of (handles (sendRequest request uuid s) ! k)"
    if "k < length (handles (sendRequest request uuid s))" for k
  proof (cases "k < length (handles s)")
    case True
    with comp [OF True] show ?thesis by (simp add: sendRequest_def Let_def nth_append)
  next
    case False
    with that have "k = length (handles s)" by (simp add: sendRequest_def Let_def)
    then show ?thesis by (simp add: sendRequest_def Let_def completion_of_def)
  qed
  from 1 2 3 show ?thesis unfolding client_inv_def by blast
qed

lemma client_invD:
  assumes "client_inv s"
  shows "distinct (map h_id (handles s))"
    and "\<And>i k. pendingRequests s i = Some k \<Longrightarrow>
            k < length (handles s) \<and> h_id (handles s ! k) = i \<and> outcome (handles s ! k) = Pending"
    and "\<And>k. k < length (handles s) \<Longrightarrow> completion_of (handles s ! k)"
  using assms by (auto simp: client_inv_def)

lemma client_invI:
  assumes "distinct (map h_id (handles s))"
    and "\<And>i k. pendingRequests s i = Some k \<Longrightarrow>
            k < length (handles s) \<and> h_id (handles s ! k) = i \<and> outcome (handles s ! k) = Pending"
    and "\<And>k. k < length (handles s) \<Longrightarrow> completion_of (handles s ! k)"
  shows "client_inv s"
  using assms unfolding client_inv_def by blast

lemma map_h_id_update:
  assumes "k < length hs" and "h_id (f (hs ! k)) = h_id (hs ! k)"
  shows "map h_id (hs[k := f (hs ! k)]) = map h_id hs"
  using assms by (simp add: map_update list_update_same_conv)

text \<open>Two handles with one identifier are the same handle.\<close>

lemma distinct_h_id_eq:
  assumes "distinct (map h_id hs)" and "j < length hs" and "k < length hs"
    and "h_id (hs ! j) = h_id (hs ! k)"
  shows "j = k"
proof -
  from assms(2,3,4) have "map h_id hs ! j = map h_id hs ! k" by simp
  moreover have "j < length (map h_id hs)" "k < length (map h_id hs)" using assms(2,3) by simp_all
  ultimately show ?thesis using assms(1) nth_eq_iff_index_eq by blast
qed

text \<open>Settling handle \<open>k\<close> and deleting its identifier keeps the invariant.\<close>

lemma inv_settle_delete:
  assumes inv: "client_inv s" and k: "k < length (handles s)"
    and hid: "\<And>h. h_id (f h) = h_id h"
    and settled: "outcome (f (handles s ! k)) \<noteq> Pending"
    and comp: "completion_of (f (handles s ! k))"
  shows "client_inv (update_handle k f
            (s\<lparr>pendingRequests := (pendingRequests s)(h_id (handles s ! k) := None)\<rparr>))"
    (is "client_inv ?s'")
proof (rule client_invI)
  note d = client_invD(1) [OF inv] and reg = client_invD(2) [OF inv] and c = client_invD(3) [OF inv]
  have hs': "handles ?s' = (handles s)[k := f (handles s ! k)]"
    using k by (simp add: update_handle_def)
  show "distinct (map h_id (handles ?s'))"
    using d k hid by (simp add: hs' map_h_id_update)
  show "j < length (handles ?s') \<and> h_id (handles ?s' ! j) = i \<and> outcome (handles ?s' ! j) = Pending"
    if "pendingRequests ?s' i = Some j" for i j
  proof -
    from that have ne: "i \<noteq> h_id (handles s ! k)" and old: "pendingRequests s i = Some j"
      by (auto simp: update_handle_def split: if_splits)
    from reg [OF old] have j: "j < length (handles s)" "h_id (handles s ! j) = i"
      "outcome (handles s ! j) = Pending" by simp_all
    from ne j have "j \<noteq> k" by auto
    with j show ?thesis by (simp add: hs')
  qed
  show "completion_of (handles ?s' ! j)" if "j < length (handles ?s')" for j
  proof (cases "j = k")
    case True
    with k comp show ?thesis by (simp add: hs')
  next
    case False
    with that c [of j] show ?thesis by (simp add: hs')
  qed
qed

lemma inv_message:
  assumes inv: "client_inv s"
  shows "client_inv (handleSSEMessage message s)"
proof (cases "message_id message")
  case None
  with inv show ?thesis by (simp add: handleSSEMessage_def)
next
  case (Some i)
  show ?thesis
  proof (cases "truthy_id i \<and> pendingRequests s i \<noteq> None")
    case False
    with Some inv show ?thesis by (auto simp: handleSSEMessage_def split: option.splits)
  next
    case True
    then obtain k where pk: "pendingRequests s i = Some k" by auto
    from client_invD(2) [OF inv pk] have k: "k < length (handles s)"
      and hid: "h_id (handles s ! k) = i" and pend: "outcome (handles s ! k) = Pending"
      by simp_all
    let ?v = "case message_error message of
                Some e \<Rightarrow> Rejected (McpError (err_message e))
              | None \<Rightarrow> Resolved message"
    have eq: "handleSSEMessage message s
                = update_handle k (settle ?v)
                    (s\<lparr>pendingRequests := (pendingRequests s)(h_id (handles s ! k) := None)\<rparr>)"
      using Some True pk hid k
      by (simp add: handleSSEMessage_def response_callback_def update_handle_def Let_def)
    have "outcome (settle ?v (handles s ! k)) \<noteq> Pending"
      using pend by (simp add: outcome_settle split: option.splits)
    moreover have "completion_of (settle ?v (handles s ! k))"
      using pend Some hid by (simp add: completion_of_def outcome_settle split: option.splits)
    ultimately show ?thesis
      unfolding eq using inv k by (rule_tac inv_settle_delete) simp_all
  qed
qed

lemma inv_timeout:
  assumes inv: "client_inv s" and k: "k < length (handles s)"
  shows "client_inv (timeout_fired k s)"
proof -
  let ?f = "\<lambda>h. (settle (Rejected (RequestTimeout (h_id (handles s ! k)))) h)\<lparr>timer := Fired\<rparr>"
  have eq: "timeout_fired k s
              = update_handle k ?f
                  (s\<lparr>pendingRequests := (pendingRequests s)(h_id (handles s ! k) := None)\<rparr>)"
    by (simp add: timeout_fired_def Let_def update_handle_def)
  have "outcome (?f (handles s ! k)) \<noteq> Pending" by (simp add: outcome_settle)
  moreover have "completion_of (?f (handles s ! k))"
    using client_invD(3) [OF inv k]
    by (auto simp: completion_of_def settle_def split: promise.splits)
  ultimately show ?thesis
    unfolding eq using inv k by (rule_tac inv_settle_delete) simp_all
qed

lemma inv_post_failed:
  assumes inv: "client_inv s" and k: "k < length (handles s)"
  shows "client_inv (post_failed k err s)"
proof -
  let ?f = "\<lambda>h. (settle (Rejected (TransportError err)) h)
                   \<lparr>timer := (if timer h = Armed then Cleared else timer h), post := Failed\<rparr>"
  have eq: "post_failed k err s
              = update_handle k ?f
                  (s\<lparr>pendingRequests := (pendingRequests s)(h_id (handles s ! k) := None)\<rparr>)"
    by (simp add: post_failed_def Let_def update_handle_def)
  have "outcome (?f (handles s ! k)) \<noteq> Pending" by (simp add: outcome_settle)
  moreover have "completion_of (?f (handles s ! k))"
    using client_invD(3) [OF inv k]
    by (auto simp: completion_of_def settle_def split: promise.splits)
  ultimately show ?thesis
    unfolding eq using inv k by (rule_tac inv_settle_delete) simp_all
qed

lemma inv_post_accepted:
  assumes inv: "client_inv s"
  shows "client_inv (post_accepted k s)"
proof (cases "k < length (handles s)")
  case False
  with inv show ?thesis by (simp add: post_accepted_def update_handle_def)
next
  case True
  have hs': "handles (post_accepted k s) = (handles s)[k := (handles s ! k)\<lparr>post := Accepted\<rparr>]"
    using True by (simp add: post_accepted_def update_handle_def)
  have pr: "pendingRequests (post_accepted k s) = pendingRequests s"
    by (simp add: post_accepted_def)
  note d = client_invD(1) [OF inv] and reg = client_invD(2) [OF inv] and c = client_invD(3) [OF inv]
  show ?thesis
  proof (rule client_invI)
    show "distinct (map h_id (handles (post_accepted k s)))"
      using d True map_h_id_update [of k "handles s" "\<lambda>h. h\<lparr>post := Accepted\<rparr>"]
      by (simp add: hs')
    show "j < length (handles (post_accepted k s)) \<and> h_id (handles (post_accepted k s) ! j) = i
          \<and> outcome (handles (post_accepted k s) ! j) = Pending"
      if "pendingRequests (post_accepted k s) i = Some j" for i j
      using reg [of i j] that by (cases "j = k") (simp_all add: pr hs')
    show "completion_of (handles (post_accepted k s) ! j)"
      if "j < length (handles (post_accepted k s))" for j
      using c [of j] that
      by (cases "j = k") (simp_all add: hs' completion_of_def split: promise.splits)
  qed
qed

lemma inv_flags:
  assumes "client_inv s" and "handles s' = handles s"
    and "pendingRequests s' = pendingRequests s \<or> pendingRequests s' = Map.empty"
  shows "client_inv s'"
  using assms unfolding client_inv_def by auto

lemma client_inv_step:
  assumes "client_inv s" and "client_step s s'"
  shows "client_inv s'"
  using assms(2,1)
proof (cases rule: client_step.cases)
  case (step_send request uuid)
  with assms show ?thesis by (simp add: inv_send)
next
  case (step_message message)
  with assms show ?thesis by (simp add: inv_message)
next
  case (step_timeout k)
  with assms show ?thesis by (simp add: inv_timeout)
next
  case (step_post_failed k err)
  with assms show ?thesis by (simp add: inv_post_failed)
next
  case (step_post_accepted k)
  with assms show ?thesis by (simp add: inv_post_accepted)
next
  case step_disconnect
  with assms show ?thesis by (rule_tac inv_flags [of s]) (simp_all add: disconnect_def)
next
  case (step_session sid)
  with assms show ?thesis by (rule_tac inv_flags [of s]) (simp_all add: session_announced_def)
next
  case step_handshake
  with assms show ?thesis by (rule_tac inv_flags [of s]) (simp_all add: handshake_done_def)
next
  case (step_connect ok)
  with assms show ?thesis by (rule_tac inv_flags [of s]) (simp_all add: connect_finished_def)
qed

lemma reachable_inv: "reachable s \<Longrightarrow> client_inv s"
  by (induction rule: reachable.induct) (auto intro: client_inv_new client_inv_step)

subsection \<open>Completion, disconnection, readiness and unmatched messages\<close>

lemma one_pending_eval:
  "one_pending =
     \<lparr>pendingRequests = [IdStr ''req-1'' \<mapsto> 0],
      handles = [\<lparr>h_id = IdStr ''req-1'', outcome = Pending, timer = Armed, post = InFlight\<rparr>],
      outbox = [list_request], initialized = False, isConnected = False, sessionId = None\<rparr>"
  by (simp add: one_pending_def sendRequest_def new_client_def request_id_of_def list_request_def Let_def)

lemma reachable_one_pending: "reachable one_pending"
  unfolding one_pending_def
  by (rule reach_step [OF reach_new], rule step_send)
     (simp_all add: new_client_def)

text \<open>
  C1, as amended. In every reachable state, a handle that \<^verbatim>\<open>sendRequest\<close> returned is in
  one of two situations. Either it is still pending, and then its timer is armed and the
  firing of that timer completes it with the timeout error. Or it is completed, with the
  success payload (a reply without an error, carrying its identifier), with a protocol
  error, with the timeout error of its identifier, or with the transport error of a failed
  submission (\<open>completion_of\<close>); then the registry has no entry for its identifier, and no
  later step of the client changes the outcome: it is completed exactly once.
\<close>

theorem sendRequest_completed_once:
  assumes r: "reachable s" and k: "k < length (handles s)"
  shows "(outcome (handles s ! k) = Pending
            \<and> timer (handles s ! k) = Armed
            \<and> outcome (handles (timeout_fired k s) ! k)
                = Rejected (RequestTimeout (h_id (handles s ! k))))
         \<or> (outcome (handles s ! k) \<noteq> Pending
            \<and> completion_of (handles s ! k)
            \<and> pendingRequests s (h_id (handles s ! k)) = None
            \<and> (\<forall>s'. client_step s s' \<longrightarrow> outcome (handles s' ! k) = outcome (handles s ! k)))"
proof (cases "outcome (handles s ! k) = Pending")
  case True
  from reachable_inv [OF r] have inv: "client_inv s" .
  from client_invD(3) [OF inv k] True have "timer (handles s ! k) = Armed"
    by (simp add: completion_of_def)
  moreover from True k
  have "outcome (handles (timeout_fired k s) ! k) = Rejected (RequestTimeout (h_id (handles s ! k)))"
    by (simp add: timeout_fired_def Let_def update_handle_def outcome_settle)
  ultimately show ?thesis using True by simp
next
  case False
  from reachable_inv [OF r] have inv: "client_inv s" .
  have "pendingRequests s (h_id (handles s ! k)) = None"
  proof (cases "pendingRequests s (h_id (handles s ! k))")
    case None
    then show ?thesis .
  next
    case (Some j)
    from client_invD(2) [OF inv Some] have j: "j < length (handles s)"
      "h_id (handles s ! j) = h_id (handles s ! k)" "outcome (handles s ! j) = Pending"
      by simp_all
    from distinct_h_id_eq [OF client_invD(1) [OF inv] j(1) k j(2)] have "j = k" .
    with j(3) False show ?thesis by simp
  qed
  moreover from client_invD(3) [OF inv k] have "completion_of (handles s ! k)" .
  moreover have "\<forall>s'. client_step s s' \<longrightarrow> outcome (handles s' ! k) = outcome (handles s ! k)"
    using settled_stable_step [OF _ k False] by blast
  ultimately show ?thesis using False by simp
qed

text \<open>A request answered by its reply: completed with the payload, and gone from the registry.\<close>

theorem sendRequest_completed_once_witness:
  "reachable (handleSSEMessage list_reply one_pending)
   \<and> 0 < length (handles (handleSSEMessage list_reply one_pending))
   \<and> outcome (handles (handleSSEMessage list_reply one_pending) ! 0) = Resolved list_reply
   \<and> pendingRequests (handleSSEMessage list_reply one_pending) (IdStr ''req-1'') = None"
proof -
  let ?s = "handleSSEMessage list_reply one_pending"
  have r: "reachable ?s"
    by (rule reach_step [OF reachable_one_pending step_message])
  have hs: "handles ?s
              = [\<lparr>h_id = IdStr ''req-1'', outcome = Resolved list_reply, timer = Armed, post = InFlight\<rparr>]"
    by (simp add: one_pending_eval handleSSEMessage_def response_callback_def update_handle_def
          settle_def list_reply_def)
  have k: "0 < length (handles ?s)" by (simp add: hs)
  from sendRequest_completed_once [OF r k]
  have "pendingRequests ?s (IdStr ''req-1'') = None" by (simp add: hs)
  with r k hs show ?thesis by simp
qed

text \<open>
  C1 as stated names three completions: the success payload, a protocol error, a timeout
  error. The \<^verbatim>\<open>catch\<close> branch of \<^verbatim>\<open>sendRequest\<close> is a fourth: when the POST fails, the
  handle is rejected with the transport's error.
\<close>

theorem sendRequest_transport_failure_counterexample:
  "reachable (post_failed 0 ''ECONNREFUSED'' one_pending)
   \<and> outcome (handles (post_failed 0 ''ECONNREFUSED'' one_pending) ! 0)
       = Rejected (TransportError ''ECONNREFUSED'')"
proof -
  have "client_step one_pending (post_failed 0 ''ECONNREFUSED'' one_pending)"
    by (rule step_post_failed) (simp_all add: one_pending_eval)
  with reachable_one_pending have "reachable (post_failed 0 ''ECONNREFUSED'' one_pending)"
    by (rule reach_step)
  moreover have "outcome (handles (post_failed 0 ''ECONNREFUSED'' one_pending) ! 0)
                   = Rejected (TransportError ''ECONNREFUSED'')"
    by (simp add: one_pending_eval post_failed_def update_handle_def settle_def)
  ultimately show ?thesis by simp
qed

text \<open>
  A handle left without its registry entry stays so under every step of the client: no
  reply reaches it, and only its timer and the failure of its POST complete it.
\<close>

lemma post_settle: "post (settle v h) = post h"
  by (simp add: settle_def)

lemma abandoned_update_handle:
  assumes a: "abandoned k rid s"
    and hid: "\<And>h. h_id (f h) = h_id h"
    and out: "j = k \<Longrightarrow> outcome (f (handles s ! k)) = Pending
                \<or> outcome (f (handles s ! k)) = Rejected (RequestTimeout rid)
                \<or> (post (f (handles s ! k)) = Failed
                    \<and> (\<exists>err. outcome (f (handles s ! k)) = Rejected (TransportError err)))"
  shows "abandoned k rid (update_handle j f (s\<lparr>pendingRequests := (pendingRequests s)(i := None)\<rparr>))"
proof (cases "j < length (handles s)")
  case False
  with a show ?thesis by (simp add: abandoned_def update_handle_def)
next
  case True
  show ?thesis
  proof (cases "j = k")
    case True
    with a hid out show ?thesis by (simp add: abandoned_def update_handle_def)
  next
    case False
    with a \<open>j < length (handles s)\<close> show ?thesis by (simp add: abandoned_def update_handle_def)
  qed
qed

lemma abandoned_step:
  assumes inv: "client_inv s" and a: "abandoned k rid s" and st: "client_step s s'"
  shows "abandoned k rid s'"
  using st
proof (cases rule: client_step.cases)
  case (step_send request uuid)
  from a have k: "k < length (handles s)" and hid: "h_id (handles s ! k) = rid"
    by (simp_all add: abandoned_def)
  from k hid have "rid \<in> h_id ` set (handles s)" by (metis image_eqI nth_mem)
  with step_send(2) have ne: "request_id_of request uuid \<noteq> rid" by auto
  with a step_send(1) show ?thesis
    by (simp add: abandoned_def sendRequest_def Let_def nth_append)
next
  case (step_message message)
  from handleSSEMessage_cases [of message s] show ?thesis
  proof
    assume "handleSSEMessage message s = s"
    with step_message a show ?thesis by simp
  next
    assume "\<exists>i j. message_id message = Some i \<and> truthy_id i \<and> pendingRequests s i = Some j
              \<and> handleSSEMessage message s
                  = (response_callback j message s)\<lparr>pendingRequests := (pendingRequests s)(i := None)\<rparr>"
    then obtain i j where pj: "pendingRequests s i = Some j"
      and eq: "handleSSEMessage message s
                 = (response_callback j message s)\<lparr>pendingRequests := (pendingRequests s)(i := None)\<rparr>"
      by blast
    from client_invD(2) [OF inv pj] have j: "j < length (handles s)" "h_id (handles s ! j) = i"
      by simp_all
    from a pj have "i \<noteq> rid" by (auto simp: abandoned_def)
    with j a have "j \<noteq> k" by (auto simp: abandoned_def)
    with a j show ?thesis
      unfolding step_message eq
      by (simp add: abandoned_def response_callback_def update_handle_def)
  qed
next
  case (step_timeout j)
  have "s' = update_handle j
               (\<lambda>h. (settle (Rejected (RequestTimeout (h_id (handles s ! j)))) h)\<lparr>timer := Fired\<rparr>)
               (s\<lparr>pendingRequests := (pendingRequests s)(h_id (handles s ! j) := None)\<rparr>)"
    unfolding step_timeout(1) by (simp add: timeout_fired_def Let_def update_handle_def)
  moreover have "abandoned k rid \<dots>"
    using a by (intro abandoned_update_handle) (auto simp: abandoned_def outcome_settle post_settle)
  ultimately show ?thesis by simp
next
  case (step_post_failed j err)
  have "s' = update_handle j
               (\<lambda>h. (settle (Rejected (TransportError err)) h)
                   \<lparr>timer := (if timer h = Armed then Cleared else timer h), post := Failed\<rparr>)
               (s\<lparr>pendingRequests := (pendingRequests s)(h_id (handles s ! j) := None)\<rparr>)"
    unfolding step_post_failed(1) by (simp add: post_failed_def Let_def update_handle_def)
  moreover have "abandoned k rid \<dots>"
    using a by (intro abandoned_update_handle) (auto simp: abandoned_def outcome_settle post_settle)
  ultimately show ?thesis by simp
next
  case (step_post_accepted j)
  with a show ?thesis
    by (cases "j = k") (auto simp: abandoned_def post_accepted_def update_handle_def)
next
  case step_disconnect
  with a show ?thesis by (simp add: abandoned_def disconnect_def)
next
  case (step_session sid)
  with a show ?thesis by (simp add: abandoned_def session_announced_def)
next
  case step_handshake
  with a show ?thesis by (simp add: abandoned_def handshake_done_def)
next
  case (step_connect ok)
  with a show ?thesis by (simp add: abandoned_def connect_finished_def)
qed

lemma abandoned_steps:
  assumes "rtranclp client_step s s'" and "client_inv s" and "abandoned k rid s"
  shows "client_inv s' \<and> abandoned k rid s'"
  using assms
proof (induction rule: rtranclp_induct)
  case base
  then show ?case by simp
next
  case (step y z)
  then have "client_inv y" "abandoned k rid y" by simp_all
  with step.hyps(2) show ?case by (simp add: client_inv_step abandoned_step)
qed

text \<open>
  C2, as amended. \<^verbatim>\<open>disconnect()\<close> empties the registry and completes no handle: the
  handles are as they were. A handle of the client that was pending is still pending
  after the call and its timer is still armed, so the timer can fire, and it then rejects
  the handle with the timeout error; if the POST of the request is still in flight, its
  failure can come first, and it rejects the handle with the transport's error. Whatever
  the client does after the call, the handle is pending, or rejected with the timeout
  error, or rejected with a transport error after its POST failed: no reply and no
  disconnect error completes it.
\<close>

theorem disconnect_clears_registry_only:
  "pendingRequests (disconnect s) = Map.empty
   \<and> handles (disconnect s) = handles s
   \<and> (reachable s \<and> k < length (handles s) \<and> outcome (handles s ! k) = Pending \<longrightarrow>
        outcome (handles (disconnect s) ! k) = Pending
        \<and> timer (handles (disconnect s) ! k) = Armed
        \<and> client_step (disconnect s) (timeout_fired k (disconnect s))
        \<and> outcome (handles (timeout_fired k (disconnect s)) ! k)
            = Rejected (RequestTimeout (h_id (handles s ! k)))
        \<and> (post (handles s ! k) = InFlight \<longrightarrow>
              client_step (disconnect s) (post_failed k err (disconnect s))
              \<and> outcome (handles (post_failed k err (disconnect s)) ! k)
                  = Rejected (TransportError err))
        \<and> (\<forall>s'. rtranclp client_step (disconnect s) s' \<longrightarrow>
              outcome (handles s' ! k) = Pending
              \<or> outcome (handles s' ! k) = Rejected (RequestTimeout (h_id (handles s ! k)))
              \<or> (post (handles s' ! k) = Failed
                  \<and> (\<exists>e. outcome (handles s' ! k) = Rejected (TransportError e)))))"
proof (intro conjI impI)
  show "pendingRequests (disconnect s) = Map.empty" by (simp add: disconnect_def)
  show hs: "handles (disconnect s) = handles s" by (simp add: disconnect_def)
  assume h: "reachable s \<and> k < length (handles s) \<and> outcome (handles s ! k) = Pending"
  then have r: "reachable s" and k: "k < length (handles s)"
    and p: "outcome (handles s ! k) = Pending" by simp_all
  from reachable_inv [OF r] have inv: "client_inv s" .
  have rd: "reachable (disconnect s)" by (rule reach_step [OF r step_disconnect])
  from reachable_inv [OF rd] have invd: "client_inv (disconnect s)" .
  show "outcome (handles (disconnect s) ! k) = Pending" using p by (simp add: hs)
  from client_invD(3) [OF inv k] p show ar: "timer (handles (disconnect s) ! k) = Armed"
    by (simp add: hs completion_of_def)
  from k have kd: "k < length (handles (disconnect s))" by (simp add: hs)
  show "client_step (disconnect s) (timeout_fired k (disconnect s))"
    by (rule step_timeout [OF kd ar])
  from k p show "outcome (handles (timeout_fired k (disconnect s)) ! k)
            = Rejected (RequestTimeout (h_id (handles s ! k)))"
    by (simp add: timeout_fired_def Let_def update_handle_def outcome_settle disconnect_def)
  have ab: "abandoned k (h_id (handles s ! k)) (disconnect s)"
    using k p by (simp add: abandoned_def disconnect_def)
  show "\<forall>s'. rtranclp client_step (disconnect s) s' \<longrightarrow>
              outcome (handles s' ! k) = Pending
              \<or> outcome (handles s' ! k) = Rejected (RequestTimeout (h_id (handles s ! k)))
              \<or> (post (handles s' ! k) = Failed
                  \<and> (\<exists>e. outcome (handles s' ! k) = Rejected (TransportError e)))"
  proof (intro allI impI)
    fix s' assume "rtranclp client_step (disconnect s) s'"
    from abandoned_steps [OF this invd ab]
    show "outcome (handles s' ! k) = Pending
              \<or> outcome (handles s' ! k) = Rejected (RequestTimeout (h_id (handles s ! k)))
              \<or> (post (handles s' ! k) = Failed
                  \<and> (\<exists>e. outcome (handles s' ! k) = Rejected (TransportError e)))"
      by (simp add: abandoned_def)
  qed
next
  assume h: "reachable s \<and> k < length (handles s) \<and> outcome (handles s ! k) = Pending"
    and fl: "post (handles s ! k) = InFlight"
  then have k: "k < length (handles s)" and p: "outcome (handles s ! k) = Pending" by simp_all
  have hs: "handles (disconnect s) = handles s" by (simp add: disconnect_def)
  from k fl show "client_step (disconnect s) (post_failed k err (disconnect s))"
    by (intro step_post_failed) (simp_all add: hs)
  from k p show "outcome (handles (post_failed k err (disconnect s)) ! k)
            = Rejected (TransportError err)"
    by (simp add: post_failed_def Let_def update_handle_def outcome_settle disconnect_def)
qed

text \<open>One pending request whose POST is in flight, a disconnect, then either completion.\<close>

theorem disconnect_clears_registry_only_witness:
  "reachable one_pending \<and> 0 < length (handles one_pending)
   \<and> outcome (handles one_pending ! 0) = Pending
   \<and> post (handles one_pending ! 0) = InFlight
   \<and> pendingRequests (disconnect one_pending) = Map.empty
   \<and> outcome (handles (disconnect one_pending) ! 0) = Pending
   \<and> timer (handles (disconnect one_pending) ! 0) = Armed
   \<and> client_step (disconnect one_pending) (timeout_fired 0 (disconnect one_pending))
   \<and> outcome (handles (timeout_fired 0 (disconnect one_pending)) ! 0)
       = Rejected (RequestTimeout (IdStr ''req-1''))
   \<and> client_step (disconnect one_pending) (post_failed 0 ''ECONNRESET'' (disconnect one_pending))
   \<and> outcome (handles (post_failed 0 ''ECONNRESET'' (disconnect one_pending)) ! 0)
       = Rejected (TransportError ''ECONNRESET'')"
proof -
  have a: "0 < length (handles one_pending)" "outcome (handles one_pending ! 0) = Pending"
    "h_id (handles one_pending ! 0) = IdStr ''req-1''"
    "post (handles one_pending ! 0) = InFlight"
    by (simp_all add: one_pending_eval)
  have "reachable one_pending \<and> 0 < length (handles one_pending)
          \<and> outcome (handles one_pending ! 0) = Pending"
    using a reachable_one_pending by simp
  with disconnect_clears_registry_only [of one_pending 0 "''ECONNRESET''"] a(3,4)
  show ?thesis by metis
qed

text \<open>
  C2 as stated: with one request pending, \<^verbatim>\<open>disconnect()\<close> should complete its handle
  with a disconnect error. The handle is still pending after the call.
\<close>

theorem disconnect_leaves_pending_counterexample:
  "reachable one_pending
   \<and> pendingRequests one_pending (IdStr ''req-1'') = Some 0
   \<and> outcome (handles one_pending ! 0) = Pending
   \<and> outcome (handles (disconnect one_pending) ! 0) = Pending"
  using reachable_one_pending by (simp add: one_pending_eval disconnect_def)

text \<open>
  C7. \<^verbatim>\<open>callTool\<close> on a client whose handshake has not succeeded, or with no session
  identifier (the caller's is absent or empty and so is the stored one), fails at once
  with the error of the first failing check, and the client is unchanged: nothing is
  registered and nothing is handed to the transport.
\<close>

theorem callTool_not_ready:
  assumes "\<not> initialized s
           \<or> ((sid = None \<or> sid = Some []) \<and> (sessionId s = None \<or> sessionId s = Some []))"
  shows "callTool name arguments sid uuid s
           = (Inl (if \<not> initialized s then ClientNotInitialized else NoSessionId), s)"
  using assms by (auto simp: callTool_def or_default_def Let_def)

text \<open>A client that never connected, and one with the handshake done but no session.\<close>

theorem callTool_not_ready_witness:
  "callTool ''add'' [(''a'', JNum (Fin 1))] (Some ''sess-1'') (IdStr ''req-2'') new_client
     = (Inl ClientNotInitialized, new_client)
   \<and> callTool ''add'' [(''a'', JNum (Fin 1))] (Some []) (IdStr ''req-2'') handshaken_no_session
     = (Inl NoSessionId, handshaken_no_session)"
proof -
  have a: "\<not> initialized new_client" by (simp add: new_client_def)
  have b: "initialized handshaken_no_session" "sessionId handshaken_no_session = None"
    by (simp_all add: handshaken_no_session_def handshake_done_def new_client_def)
  from callTool_not_ready [of new_client "Some ''sess-1''" "''add''" "[(''a'', JNum (Fin 1))]" "IdStr ''req-2''"]
       callTool_not_ready [of handshaken_no_session "Some []" "''add''" "[(''a'', JNum (Fin 1))]" "IdStr ''req-2''"]
       a b
  show ?thesis by simp
qed

text \<open>
  C8. An inbound message with no identifier, or with an identifier that has no pending
  entry, leaves the client as it was: the registry and every handle are unchanged (the
  model's \<open>handleSSEMessage\<close> is total, it has no error result). In particular a reply
  that arrives after the timer of its request has fired is dropped.
\<close>

theorem handleSSEMessage_unmatched_dropped:
  "(message_id message = None
      \<or> (\<exists>i. message_id message = Some i \<and> pendingRequests s i = None)
    \<longrightarrow> handleSSEMessage message s = s)
   \<and> (k < length (handles s) \<and> message_id message = Some (h_id (handles s ! k))
    \<longrightarrow> handleSSEMessage message (timeout_fired k s) = timeout_fired k s)"
  by (auto simp: handleSSEMessage_def timeout_fired_def Let_def split: option.splits)

text \<open>An unknown identifier, no identifier, and a reply after the timeout.\<close>

theorem handleSSEMessage_unmatched_dropped_witness:
  "pendingRequests one_pending (IdStr ''req-9'') = None
   \<and> handleSSEMessage (list_reply\<lparr>message_id := Some (IdStr ''req-9'')\<rparr>) one_pending = one_pending
   \<and> handleSSEMessage (list_reply\<lparr>message_id := None\<rparr>) one_pending = one_pending
   \<and> handleSSEMessage list_reply (timeout_fired 0 one_pending) = timeout_fired 0 one_pending"
proof -
  have a: "pendingRequests one_pending (IdStr ''req-9'') = None" "0 < length (handles one_pending)"
    "h_id (handles one_pending ! 0) = IdStr ''req-1''"
    by (simp_all add: one_pending_eval)
  from handleSSEMessage_unmatched_dropped [of "list_reply\<lparr>message_id := Some (IdStr ''req-9'')\<rparr>" one_pending 0]
       handleSSEMessage_unmatched_dropped [of "list_reply\<lparr>message_id := None\<rparr>" one_pending 0]
       handleSSEMessage_unmatched_dropped [of list_reply one_pending 0]
       a
  show ?thesis by (simp add: list_reply_def)
qed

section \<open>Properties of the tool wrapper\<close>

text \<open>
  The overflow bound of \<open>to_number\<close> written out, for evaluation on concrete inputs.
\<close>

lemma to_number_code [code]:
  "to_number r =
     (if 179769313486231580793728971405303415079934132710037826936173778980444968292764750946649017977587207096330286416692887910946555547851940402630657488671505820681908902000708383676273854845817711531764475730270069855571366959622842914819860834936475292719074168444365510704342711559699508093042880177904174497792 \<le> \<bar>r\<bar>
      then Infinity (r < 0) else Fin r)"
  by (simp add: to_number_def)

lemma parseFloat_5: "parseFloat ''5'' = Fin 5" by code_simp
lemma parseFloat_3: "parseFloat ''3'' = Fin 3" by code_simp
lemma number_toString_5: "number_toString (Fin 5) = ''5''" by code_simp
lemma number_toString_3: "number_toString (Fin 3) = ''3''" by code_simp
lemma matches_5_3_add: "number_matches ''5 3 add'' = [''5'', ''3'']" by code_simp

lemma js_set_other:
  "k \<noteq> ''__proto__'' \<Longrightarrow> js_set obj k v = obj\<lparr>own := AList.update k v (own obj)\<rparr>"
  by (simp add: js_set_def)

lemma fill_required_present:
  "list_all (js_in res) req \<Longrightarrow> fill_required props req res = Inr res"
  by (induction req) simp_all

lemma fill_missing_present:
  "list_all (js_in (fst st)) req \<Longrightarrow> fill_missing name props req st = st"
  by (induction req) simp_all

text \<open>
  C3. Against a schema whose two parameters, in this order, are \<^verbatim>\<open>firstNumber\<close> and
  \<^verbatim>\<open>secondNumber\<close>, both of type number, the free text \<^verbatim>\<open>5 3 add\<close> is mapped to exactly
  \<^verbatim>\<open>{firstNumber: 5, secondNumber: 3}\<close>: the two numeric substrings go to the numeric
  parameters in order and the word \<^verbatim>\<open>add\<close> goes nowhere. The cleaning pass keeps that
  argument set and logs no warning. This holds whichever of the two are required.
\<close>

theorem mapInputToSchema_5_3_add:
  assumes props: "properties t = [(''firstNumber'', p1), (''secondNumber'', p2)]"
    and p1: "ptype p1 = Some ''number''" and p2: "ptype p2 = Some ''number''"
    and req: "set (required t) \<subseteq> {''firstNumber'', ''secondNumber''}"
  shows "mapInputToSchema t (JStr ''5 3 add'')
           = Inr (JObj [(''firstNumber'', JNum (Fin 5)), (''secondNumber'', JNum (Fin 3))])
         \<and> prepare_arguments t (JStr ''5 3 add'')
           = Inr ([(''firstNumber'', JNum (Fin 5)), (''secondNumber'', JNum (Fin 3))], [])"
proof -
  let ?res = "[(''firstNumber'', JNum (Fin 5)), (''secondNumber'', JNum (Fin 3))]"
  let ?obj = "\<lparr>own = ?res, proto = ObjectPrototype\<rparr>"
  have np: "numericProps [(''firstNumber'', p1), (''secondNumber'', p2)]
              = [(''firstNumber'', p1), (''secondNumber'', p2)]"
    using p1 p2 by (simp add: numericProps_def)
  have sp: "stringProps [(''firstNumber'', p1), (''secondNumber'', p2)] = []"
    using p1 p2 by (simp add: stringProps_def)
  have c1: "convert_with_schema (JStr ''5'') p1 = Inr (JNum (Fin 5))"
    using p1 by (simp add: convert_with_schema_def is_null_or_undefined_def parseFloat_5
          nan_to_zero_def isNaN_def)
  have c2: "convert_with_schema (JStr ''3'') p2 = Inr (JNum (Fin 3))"
    using p2 by (simp add: convert_with_schema_def is_null_or_undefined_def parseFloat_3
          nan_to_zero_def isNaN_def)
  have an: "assign_numbers (numericProps (properties t)) (number_matches ''5 3 add'') empty_object
              = Inr ?obj"
    unfolding props matches_5_3_add np by (simp add: c1 c2 js_set_other empty_object_def)
  have aw: "assign_words (stringProps (properties t)) (split_ws (trim ''5 3 add'')) ?obj = ?obj"
    unfolding props sp assign_words_def by simp
  have "list_all (js_in ?obj) (required t)"
    using req by (auto simp: list_all_iff js_in_def)
  then have fr: "fill_required (properties t) (required t) ?obj = Inr ?obj"
    by (rule fill_required_present)
  have msi: "map_string_input (properties t) (required t) ''5 3 add'' = Some (Inr (JObj ?res))"
    unfolding map_string_input_def Let_def an sum.case aw fr by simp
  have m: "mapInputToSchema t (JStr ''5 3 add'') = Inr (JObj ?res)"
    using msi by (simp add: mapInputToSchema_def props)
  have l: "lookup_schema (properties t) ''firstNumber'' = Some p1"
    "lookup_schema (properties t) ''secondNumber'' = Some p2"
    by (simp_all add: lookup_schema_def props)
  have f1: "clean_field p1 ''firstNumber'' (JNum (Fin 5)) empty_object
              = Inr \<lparr>own = [(''firstNumber'', JNum (Fin 5))], proto = ObjectPrototype\<rparr>"
    using p1 by (simp add: clean_field_def is_null_or_undefined_def number_toString_5
          parseFloat_5 isNaN_def js_set_other empty_object_def)
  have f2: "clean_field p2 ''secondNumber'' (JNum (Fin 3))
              \<lparr>own = [(''firstNumber'', JNum (Fin 5))], proto = ObjectPrototype\<rparr> = Inr ?obj"
    using p2 by (simp add: clean_field_def is_null_or_undefined_def number_toString_3
          parseFloat_3 isNaN_def js_set_other)
  have ce: "clean_entries (properties t) ?res empty_object = Inr ?obj"
    by (simp add: l f1 f2)
  have "list_all (js_in (fst (?obj, ([]::string list)))) (required t)"
    using req by (auto simp: list_all_iff js_in_def)
  then have fm: "fill_missing (tool_name t) (properties t) (required t) (?obj, []) = (?obj, [])"
    by (rule fill_missing_present)
  have v: "validateAndCleanArgs t ?res = Inr (?res, [])"
    unfolding validateAndCleanArgs_def ce by (simp add: fm)
  have "prepare_arguments t (JStr ''5 3 add'') = Inr (?res, [])"
    by (simp add: prepare_arguments_def m object_entries_def v)
  with m show ?thesis by simp
qed

text \<open>
  The tool \<^verbatim>\<open>add_two_numbers\<close> with both parameters required.
\<close>

theorem mapInputToSchema_5_3_add_witness:
  "mapInputToSchema add_two_numbers (JStr ''5 3 add'')
     = Inr (JObj [(''firstNumber'', JNum (Fin 5)), (''secondNumber'', JNum (Fin 3))])
   \<and> prepare_arguments add_two_numbers (JStr ''5 3 add'')
     = Inr ([(''firstNumber'', JNum (Fin 5)), (''secondNumber'', JNum (Fin 3))], [])"
  using mapInputToSchema_5_3_add [of add_two_numbers number_schema number_schema]
  by (simp add: add_two_numbers_def number_schema_def)

text \<open>
  C4. For a tool whose schema declares \<^verbatim>\<open>query\<close> as a string and requires exactly
  \<^verbatim>\<open>query\<close>, the input \<^verbatim>\<open>{}\<close> is prepared without an error: the argument set is
  \<^verbatim>\<open>{query: ""}\<close>, one warning about the missing parameter is logged, and
  \<^verbatim>\<open>executeInternal\<close> hands exactly that argument set to \<^verbatim>\<open>callTool\<close>.
\<close>

theorem prepare_arguments_empty_object:
  assumes q: "map_of (properties t) ''query'' = Some p" and ty: "ptype p = Some ''string''"
    and req: "required t = [''query'']"
  shows "prepare_arguments t (JObj [])
           = Inr ([(''query'', JStr [])], [missing_warning ''query'' (tool_name t)])
         \<and> executeInternal env t (JObj [])
           = (finish_call env
                (awaited_callTool env (tool_name t) [(''query'', JStr [])]
                   (or_default (client_session env) (currentSessionId env))),
              [missing_warning ''query'' (tool_name t)])"
proof -
  have n: "\<not> js_in empty_object ''query''"
    by (simp add: js_in_def empty_object_def prototype_has_def object_prototype_names_def)
  have l: "lookup_schema (properties t) ''query'' = Some p"
    by (simp add: lookup_schema_def q)
  have s: "own (js_set empty_object ''query'' (JStr [])) = [(''query'', JStr [])]"
    by (simp add: js_set_other empty_object_def)
  have "validateAndCleanArgs t []
          = Inr ([(''query'', JStr [])], [missing_warning ''query'' (tool_name t)])"
    by (simp add: validateAndCleanArgs_def req l ty n s)
  then have p: "prepare_arguments t (JObj [])
           = Inr ([(''query'', JStr [])], [missing_warning ''query'' (tool_name t)])"
    by (simp add: prepare_arguments_def object_entries_def)
  then show ?thesis by (simp add: executeInternal_def)
qed

text \<open>
  C4 on a search tool, with a remote call that succeeds.
\<close>

theorem prepare_arguments_empty_object_witness:
  "prepare_arguments query_tool (JObj [])
     = Inr ([(''query'', JStr [])], [missing_warning ''query'' ''search_products''])
   \<and> executeInternal (example_env two_texts) query_tool (JObj [])
     = (Inr (''8'' @ [CHR 0x0A] @ ''done''), [missing_warning ''query'' ''search_products''])"
proof -
  have q: "map_of (properties query_tool) ''query'' = Some string_schema"
    and r: "required query_tool = [''query'']" and n: "tool_name query_tool = ''search_products''"
    by (simp_all add: query_tool_def)
  have ty: "ptype string_schema = Some ''string''" by (simp add: string_schema_def)
  have fc: "finish_call (example_env two_texts) (Inr two_texts) = Inr (''8'' @ [CHR 0x0A] @ ''done'')"
    by (simp add: finish_call_def formatToolResult_def two_texts_def text_item_def
          is_text_item_def or_default_def example_env_def)
  have ac: "awaited_callTool (example_env two_texts) = (\<lambda>name args sid. Inr two_texts)"
    by (simp add: example_env_def)
  from prepare_arguments_empty_object [OF q ty r, of "example_env two_texts"]
  show ?thesis by (simp add: n ac fc)
qed

subsection \<open>The cleaning pass\<close>


lemma proto_names_in:
  "proto obj = ObjectPrototype \<Longrightarrow> k \<in> set object_prototype_names \<Longrightarrow> js_in obj k"
  by (simp add: js_in_def prototype_has_def)




















text \<open>
  C6. The back-filling loop of \<^verbatim>\<open>validateAndCleanArgs\<close> fills a missing required string
  with the empty string also when the parameter declares an enum, where
  \<^verbatim>\<open>getDefaultValueForSchema\<close> (used by the back-filling of \<^verbatim>\<open>mapInputToSchema\<close>) gives
  the first enum value: for the input \<^verbatim>\<open>{}\<close> and a required \<^verbatim>\<open>category\<close> with the enum
  \<^verbatim>\<open>[laptops, phones]\<close> the prepared arguments are \<^verbatim>\<open>{category: ""}\<close>.
\<close>

theorem validateAndCleanArgs_enum_default:
  "prepare_arguments category_tool (JObj [])
     = Inr ([(''category'', JStr [])],
            [missing_warning ''category'' ''fetch_products_by_category''])
   \<and> getDefaultValueForSchema (map_of (properties category_tool) ''category'')
     = Inr (JStr ''laptops'')"
  by (simp add: prepare_arguments_def object_entries_def validateAndCleanArgs_def
        category_tool_def category_schema_def js_in_def prototype_has_def empty_object_def
        object_prototype_names_def lookup_schema_def js_set_def getDefaultValueForSchema_def
        default_for_schema_def)

subsection \<open>Results of an invocation\<close>

lemma filter_text_items:
  assumes "filter (\<lambda>i. item_type i = ''text'') items = [a, b]"
    and "item_text a = Some ta" and "ta \<noteq> []" and "item_text b = Some tb" and "tb \<noteq> []"
  shows "filter is_text_item items = [a, b]"
proof -
  have "filter is_text_item items
          = filter (\<lambda>i. or_default (item_text i) [] \<noteq> []) (filter (\<lambda>i. item_type i = ''text'') items)"
    by (simp add: is_text_item_def [abs_def])
  also have "\<dots> = [a, b]" using assms by (simp add: or_default_def)
  finally show ?thesis .
qed

text \<open>
  C9, as amended. When the awaited \<^verbatim>\<open>callTool\<close> yields a result: if its error flag is
  set, \<^verbatim>\<open>executeInternal\<close> fails with a tool-execution error; if it is not set and the
  text items of the content list are exactly two, both with non-empty text, the text
  returned is the first text, a newline, and the second text.
\<close>

theorem executeInternal_result_text:
  assumes prep: "prepare_arguments t input = Inr prepared"
    and call: "awaited_callTool env (tool_name t) (fst prepared)
                 (or_default (client_session env) (currentSessionId env)) = Inr result"
  shows "(isError result \<longrightarrow>
            fst (executeInternal env t input)
              = Inl (ToolExecutionFailed (stringify_content env (content result))))
         \<and> (\<not> isError result \<and> content result = Some items
              \<and> filter (\<lambda>i. item_type i = ''text'') items = [a, b]
              \<and> item_text a = Some ta \<and> ta \<noteq> [] \<and> item_text b = Some tb \<and> tb \<noteq> []
            \<longrightarrow> fst (executeInternal env t input) = Inr (ta @ [CHR 0x0A] @ tb))"
proof (intro conjI impI)
  assume "isError result"
  with prep call show "fst (executeInternal env t input)
              = Inl (ToolExecutionFailed (stringify_content env (content result)))"
    by (simp add: executeInternal_def finish_call_def)
next
  assume h: "\<not> isError result \<and> content result = Some items
              \<and> filter (\<lambda>i. item_type i = ''text'') items = [a, b]
              \<and> item_text a = Some ta \<and> ta \<noteq> [] \<and> item_text b = Some tb \<and> tb \<noteq> []"
  then have f: "filter is_text_item items = [a, b]"
    using filter_text_items [of items a b ta tb] by blast
  from h have ne: "items \<noteq> []" by auto
  have "formatToolResult (stringify_content env) (stringify_item env) result = ta @ [CHR 0x0A] @ tb"
    using h ne by (simp add: formatToolResult_def f or_default_def Let_def)
  with prep call h show "fst (executeInternal env t input) = Inr (ta @ [CHR 0x0A] @ tb)"
    by (simp add: executeInternal_def finish_call_def)
qed

lemma prepare_add: "prepare_arguments add_two_numbers (JStr ''5 3 add'')
     = Inr ([(''firstNumber'', JNum (Fin 5)), (''secondNumber'', JNum (Fin 3))], [])"
  by code_simp

text \<open>
  A successful result with the texts \<^verbatim>\<open>8\<close> and \<^verbatim>\<open>done\<close>, and an error-flagged one.
\<close>

theorem executeInternal_result_text_witness:
  "fst (executeInternal (example_env two_texts) add_two_numbers (JStr ''5 3 add''))
     = Inr (''8'' @ [CHR 0x0A] @ ''done'')
   \<and> fst (executeInternal (example_env failed_result) add_two_numbers (JStr ''5 3 add''))
     = Inl (ToolExecutionFailed ''[...]'')"
proof -
  have c1: "awaited_callTool (example_env two_texts) (tool_name add_two_numbers)
              (fst ([(''firstNumber'', JNum (Fin 5)), (''secondNumber'', JNum (Fin 3))], []::string list))
              (or_default (client_session (example_env two_texts))
                 (currentSessionId (example_env two_texts))) = Inr two_texts"
    by (simp add: example_env_def)
  have c2: "awaited_callTool (example_env failed_result) (tool_name add_two_numbers)
              (fst ([(''firstNumber'', JNum (Fin 5)), (''secondNumber'', JNum (Fin 3))], []::string list))
              (or_default (client_session (example_env failed_result))
                 (currentSessionId (example_env failed_result))) = Inr failed_result"
    by (simp add: example_env_def)
  have t: "\<not> isError two_texts" "content two_texts = Some [text_item ''8'', text_item ''done'']"
    "filter (\<lambda>i. item_type i = ''text'') [text_item ''8'', text_item ''done'']
       = [text_item ''8'', text_item ''done'']"
    "item_text (text_item ''8'') = Some ''8''" "item_text (text_item ''done'') = Some ''done''"
    by (simp_all add: two_texts_def text_item_def)
  have f: "isError failed_result" "stringify_content (example_env failed_result) (content failed_result) = ''[...]''"
    by (simp_all add: failed_result_def example_env_def)
  from executeInternal_result_text [OF prepare_add c1,
         of "[text_item ''8'', text_item ''done'']" "text_item ''8''" "text_item ''done''" "''8''" "''done''"] t
  have 1: "fst (executeInternal (example_env two_texts) add_two_numbers (JStr ''5 3 add''))
             = Inr (''8'' @ [CHR 0x0A] @ ''done'')"
    by simp
  from executeInternal_result_text [OF prepare_add c2] f
  have 2: "fst (executeInternal (example_env failed_result) add_two_numbers (JStr ''5 3 add''))
             = Inl (ToolExecutionFailed ''[...]'')"
    by simp
  from 1 2 show ?thesis by simp
qed

text \<open>
  C9 as stated covers every result with two text items. The filter
  \<^verbatim>\<open>item.type === 'text' && item.text\<close> drops a text item whose text is empty, so for the
  texts \<^verbatim>\<open>8\<close> and the empty string the result is \<^verbatim>\<open>8\<close>, without the newline.
\<close>

theorem formatToolResult_empty_text_counterexample:
  "formatToolResult (stringify_content (example_env text_and_empty))
       (stringify_item (example_env text_and_empty)) text_and_empty = ''8''
   \<and> fst (executeInternal (example_env text_and_empty) add_two_numbers (JStr ''5 3 add''))
       = Inr ''8''
   \<and> ''8'' \<noteq> ''8'' @ [CHR 0x0A] @ []"
proof -
  have f: "formatToolResult (stringify_content (example_env text_and_empty))
             (stringify_item (example_env text_and_empty)) text_and_empty = ''8''"
    by (simp add: formatToolResult_def text_and_empty_def text_item_def is_text_item_def
          or_default_def)
  have e: "\<not> isError text_and_empty" by (simp add: text_and_empty_def)
  have c: "awaited_callTool (example_env text_and_empty) = (\<lambda>name args sid. Inr text_and_empty)"
    by (simp add: example_env_def)
  have "fst (executeInternal (example_env text_and_empty) add_two_numbers (JStr ''5 3 add''))
          = Inr ''8''"
    by (simp add: executeInternal_def prepare_add finish_call_def c e f)
  with f show ?thesis by simp
qed

end
